theory Spec2Isabelle
  imports Main "HOL-Library.Sublist" "HOL-Library.List_Lexorder" "HOL-Library.AList"
begin

section \<open>Python strings\<close>

text \<open>
  A Python \<^verbatim>\<open>str\<close> is a sequence of Unicode code points, so it is modelled as a list
  of naturals: the literal replaced by \<^verbatim>\<open>_normalize\<close> holds U+20AC, which no 8-bit
  character represents. ASCII literals of the source are written \<open>str ''...''\<close>.
  Comparison of strings (used by \<^verbatim>\<open>sorted\<close>) is the lexicographic order on code points.
\<close>

type_synonym pystr = "nat list"

definition str :: "string \<Rightarrow> pystr" where
  "str cs = map of_char cs"

text \<open>
  Two tables of the Python runtime are not part of the repository: the Unicode case
  mapping behind \<^verbatim>\<open>str.lower\<close> and the alphanumeric classification behind the regular
  expression classes \<^verbatim>\<open>\w\<close>, \<^verbatim>\<open>\W\<close> and \<^verbatim>\<open>\b\<close>. Both are parameters of the model;
  every theorem holds for whatever the tables are.
\<close>

record pyrt =
  str_lower :: "pystr \<Rightarrow> pystr"
  isalnum :: "nat \<Rightarrow> bool"

text \<open>
  The tables restricted to ASCII: on a string of ASCII characters \<^verbatim>\<open>str.lower\<close> maps
  \<^verbatim>\<open>A\<close>..\<^verbatim>\<open>Z\<close> to \<^verbatim>\<open>a\<close>..\<^verbatim>\<open>z\<close> and leaves the rest, and the alphanumeric
  characters are the digits and the letters. The concrete inputs below are ASCII.
\<close>

definition ascii_lower_cp :: "nat \<Rightarrow> nat" where
  "ascii_lower_cp c = (if 65 \<le> c \<and> c \<le> 90 then c + 32 else c)"

definition ascii_isalnum :: "nat \<Rightarrow> bool" where
  "ascii_isalnum c = (48 \<le> c \<and> c \<le> 57 \<or> 65 \<le> c \<and> c \<le> 90 \<or> 97 \<le> c \<and> c \<le> 122)"

definition ascii_rt :: pyrt where
  "ascii_rt = \<lparr>str_lower = map ascii_lower_cp, isalnum = ascii_isalnum\<rparr>"

text \<open>
  \<^verbatim>\<open>str.isspace\<close> for one code point; the same class is \<^verbatim>\<open>\s\<close> of \<^verbatim>\<open>re\<close> on \<^verbatim>\<open>str\<close>
  patterns and what \<^verbatim>\<open>str.strip()\<close> removes.
\<close>

definition isspace :: "nat \<Rightarrow> bool" where
  "isspace c = (9 \<le> c \<and> c \<le> 13 \<or> 28 \<le> c \<and> c \<le> 32 \<or> c = 133 \<or> c = 160 \<or> c = 5760
     \<or> 8192 \<le> c \<and> c \<le> 8202 \<or> c = 8232 \<or> c = 8233 \<or> c = 8239 \<or> c = 8287 \<or> c = 12288)"

text \<open>\<^verbatim>\<open>\w\<close>: alphanumeric or underscore.\<close>

definition isword :: "pyrt \<Rightarrow> nat \<Rightarrow> bool" where
  "isword rt c = (isalnum rt c \<or> c = 95)"

text \<open>\<^verbatim>\<open>needle in hay\<close> on strings: some suffix of \<open>hay\<close> starts with \<open>needle\<close>.\<close>

fun contains :: "'a list \<Rightarrow> 'a list \<Rightarrow> bool" where
  "contains [] needle = (needle = [])"
| "contains (h # hs) needle = (prefix needle (h # hs) \<or> contains hs needle)"

text \<open>
  \<^verbatim>\<open>s.replace(old, new)\<close> for a non-empty \<open>old\<close>: the occurrences are replaced from the
  left, without overlap.
\<close>

function replace :: "pystr \<Rightarrow> pystr \<Rightarrow> pystr \<Rightarrow> pystr" where
  "replace old new [] = []"
| "replace old new (c # cs) =
     (if old \<noteq> [] \<and> prefix old (c # cs)
      then new @ replace old new (drop (length old) (c # cs))
      else c # replace old new cs)"
  by pat_completeness auto
termination
  by (relation "measure (\<lambda>(old, new, s). length s)") (auto simp: prefix_def)

text \<open>\<^verbatim>\<open>re.sub(r"\s+", " ", s)\<close>: every maximal run of whitespace becomes one space.\<close>

function re_sub_ws :: "pystr \<Rightarrow> pystr" where
  "re_sub_ws [] = []"
| "re_sub_ws (c # cs) =
     (if isspace c then 32 # re_sub_ws (dropWhile isspace cs) else c # re_sub_ws cs)"
  by pat_completeness auto
termination
  by (relation "measure length") (auto simp: length_dropWhile_le less_Suc_eq_le)

definition strip :: "pystr \<Rightarrow> pystr" where
  "strip s = rev (dropWhile isspace (rev (dropWhile isspace s)))"

text \<open>The mis-encoded ellipsis: U+00E2, U+20AC, U+00A6.\<close>

definition mojibake_ellipsis :: pystr where
  "mojibake_ellipsis = [226, 8364, 166]"

text \<open>
  \<^verbatim>\<open>_normalize\<close> and \<^verbatim>\<open>_statement_present\<close>. A name cannot start with an underscore
  here, so the private functions and methods of the source lose theirs; \<^verbatim>\<open>_normalize\<close>
  becomes \<open>normalize_str\<close>.
\<close>

definition normalize_str :: "pyrt \<Rightarrow> pystr \<Rightarrow> pystr" where
  "normalize_str rt text =
     (let normalized = replace mojibake_ellipsis (str ''...'') (str_lower rt text)
      in strip (re_sub_ws normalized))"

definition statement_present :: "pyrt \<Rightarrow> pystr \<Rightarrow> pystr \<Rightarrow> bool" where
  "statement_present rt notes statement =
     (if statement = [] then False
      else let normalized_statement = normalize_str rt statement
           in contains notes normalized_statement)"

text \<open>\<^verbatim>\<open>sep.join(parts)\<close>.\<close>

fun join :: "pystr \<Rightarrow> pystr list \<Rightarrow> pystr" where
  "join sep [] = []"
| "join sep [p] = p"
| "join sep (p # q # ps) = p @ sep @ join sep (q # ps)"

text \<open>
  \<^verbatim>\<open>re.split(r"\W+", s)\<close>: the pieces of \<open>s\<close> between the maximal runs of non-word
  characters; a run at either end of \<open>s\<close> leaves an empty piece there.
\<close>

function re_split_W :: "pyrt \<Rightarrow> pystr \<Rightarrow> pystr list" where
  "re_split_W rt [] = [[]]"
| "re_split_W rt (c # cs) =
     (if isword rt c then
        (case re_split_W rt cs of [] \<Rightarrow> [[c]] | p # ps \<Rightarrow> (c # p) # ps)
      else [] # re_split_W rt (dropWhile (\<lambda>x. \<not> isword rt x) cs))"
  by pat_completeness auto
termination
  by (relation "measure (\<lambda>(rt, s). length s)") (auto simp: length_dropWhile_le less_Suc_eq_le)

text \<open>
  \<^verbatim>\<open>re.search(r"\bn/a\b", s)\<close>, as a truth value. \<^verbatim>\<open>\b\<close> holds between two positions
  when exactly one of them is a word character; beyond either end of the string there
  is no word character. \<open>prev\<close> is the character before the current position.
\<close>

definition word_at :: "pyrt \<Rightarrow> nat option \<Rightarrow> bool" where
  "word_at rt c = (case c of None \<Rightarrow> False | Some x \<Rightarrow> isword rt x)"

definition boundary :: "pyrt \<Rightarrow> nat option \<Rightarrow> nat option \<Rightarrow> bool" where
  "boundary rt before after = (word_at rt before \<noteq> word_at rt after)"

definition first_char :: "pystr \<Rightarrow> nat option" where
  "first_char s = (case s of [] \<Rightarrow> None | c # _ \<Rightarrow> Some c)"

fun re_search_n_a :: "pyrt \<Rightarrow> nat option \<Rightarrow> pystr \<Rightarrow> bool" where
  "re_search_n_a rt prev [] = False"
| "re_search_n_a rt prev (c # cs) =
     ((prefix (str ''n/a'') (c # cs)
        \<and> boundary rt prev (Some c)
        \<and> boundary rt (Some 97) (first_char (drop 3 (c # cs))))
      \<or> re_search_n_a rt (Some c) cs)"

section \<open>The rule document\<close>

text \<open>
  The rule document is the parsed JSON the evaluator is constructed with. Each JSON
  object is a record with one field per key the source reads; a field is \<open>None\<close> when the
  key is absent, so that \<^verbatim>\<open>d[k]\<close> (which raises \<^verbatim>\<open>KeyError\<close>) and \<^verbatim>\<open>d.get(k, default)\<close>
  are told apart. The values have the types of a well-formed document; the identifier of
  a control definition is mandatory.
\<close>

record control_def =
  c_id :: pystr
  c_text :: "pystr option"
  c_tags :: "pystr list option"

record lac_conditions =
  pii_positive_statements :: "pystr list option"
  enforce_mfa_critical_or_pii_if_company_handles_pii :: "bool option"
  passwords_encrypted_in_transit_only_if_negative_statement_present :: "pystr list option"

record rw_conditions =
  enforce_only_if_remote_work_allowed :: "pystr option"

record cross_rule =
  if_any_statement_present :: "pystr list option"
  then_mark_controls_met :: "pystr list option"

record net_conditions =
  enforce_pii_controls_if_company_handles_pii :: "bool option"
  do_not_enforce_need_to_know_if_least_privilege_statement_present :: "bool option"

record conditions_doc =
  cond_logical_access_controls :: "lac_conditions option"
  cond_remote_workforce :: "rw_conditions option"
  cond_cross_satisfaction :: "cross_rule list option"
  cond_network_information_security :: "net_conditions option"

record net_catalog =
  pii_controls :: "control_def list option"
  controls :: "control_def list option"

record catalog_doc =
  cat_logical_access_controls :: "control_def list option"
  cat_network_information_security :: "net_catalog option"
  cat_change_mgmt_sdlc :: "control_def list option"
  cat_remote_workforce :: "control_def list option"
  cat_business_continuity :: "control_def list option"
  cat_incident_response_elements :: "pystr list option"

record ito_req =
  ito_required :: "pystr list option"

record lac_req =
  lac_required_all :: "bool option"
  lac_min_count :: "int option"
  lac_must_include_tag :: "pystr option"

record net_req =
  pii_controls_required_if_company_handles_pii :: "bool option"
  controls_required_all :: "bool option"
  net_min_count :: "int option"
  net_must_include_tag :: "pystr option"

record chg_req =
  chg_required_all :: "bool option"
  require_change_mgmt_process :: "bool option"
  min_count_from :: "pystr list option"
  chg_min_count :: "int option"

record rw_req =
  rw_required_all :: "bool option"
  rw_min_count :: "int option"

record ir_req =
  min_elements :: "int option"

record bcp_req =
  bcp_required :: "bool option"

record tier_req =
  req_info_tech_overview :: "ito_req option"
  req_logical_access_controls :: "lac_req option"
  req_network_information_security :: "net_req option"
  req_change_mgmt_sdlc :: "chg_req option"
  req_remote_workforce :: "rw_req option"
  req_incident_response :: "ir_req option"
  req_business_continuity :: "bcp_req option"

record ratings_doc =
  very_favorable :: "tier_req option"
  favorable :: "tier_req option"
  neutral :: "tier_req option"
  unfavorable :: "tier_req option"

record rule_document =
  conditions :: "conditions_doc option"
  catalog :: "catalog_doc option"
  ratings :: "ratings_doc option"

text \<open>\<^verbatim>\<open>d.get(k, default)\<close> and the truth value of \<^verbatim>\<open>d.get(k)\<close> for a flag.\<close>

definition dget :: "'a option \<Rightarrow> 'a \<Rightarrow> 'a" where
  "dget v dflt = (case v of None \<Rightarrow> dflt | Some x \<Rightarrow> x)"

definition truthy :: "bool option \<Rightarrow> bool" where
  "truthy v = (case v of None \<Rightarrow> False | Some b \<Rightarrow> b)"

text \<open>The empty JSON object \<^verbatim>\<open>{}\<close> at each record type.\<close>

definition empty_lac_conditions :: lac_conditions where
  "empty_lac_conditions = \<lparr>pii_positive_statements = None,
     enforce_mfa_critical_or_pii_if_company_handles_pii = None,
     passwords_encrypted_in_transit_only_if_negative_statement_present = None\<rparr>"

definition empty_rw_conditions :: rw_conditions where
  "empty_rw_conditions = \<lparr>enforce_only_if_remote_work_allowed = None\<rparr>"

definition empty_net_conditions :: net_conditions where
  "empty_net_conditions = \<lparr>enforce_pii_controls_if_company_handles_pii = None,
     do_not_enforce_need_to_know_if_least_privilege_statement_present = None\<rparr>"

definition empty_conditions :: conditions_doc where
  "empty_conditions = \<lparr>cond_logical_access_controls = None, cond_remote_workforce = None,
     cond_cross_satisfaction = None, cond_network_information_security = None\<rparr>"

definition empty_net_catalog :: net_catalog where
  "empty_net_catalog = \<lparr>pii_controls = None, controls = None\<rparr>"

definition empty_catalog :: catalog_doc where
  "empty_catalog = \<lparr>cat_logical_access_controls = None,
     cat_network_information_security = None, cat_change_mgmt_sdlc = None,
     cat_remote_workforce = None, cat_business_continuity = None,
     cat_incident_response_elements = None\<rparr>"

definition empty_ito_req :: ito_req where
  "empty_ito_req = \<lparr>ito_required = None\<rparr>"

definition empty_lac_req :: lac_req where
  "empty_lac_req = \<lparr>lac_required_all = None, lac_min_count = None, lac_must_include_tag = None\<rparr>"

definition empty_net_req :: net_req where
  "empty_net_req = \<lparr>pii_controls_required_if_company_handles_pii = None,
     controls_required_all = None, net_min_count = None, net_must_include_tag = None\<rparr>"

definition empty_chg_req :: chg_req where
  "empty_chg_req = \<lparr>chg_required_all = None, require_change_mgmt_process = None,
     min_count_from = None, chg_min_count = None\<rparr>"

definition empty_rw_req :: rw_req where
  "empty_rw_req = \<lparr>rw_required_all = None, rw_min_count = None\<rparr>"

definition empty_ir_req :: ir_req where
  "empty_ir_req = \<lparr>min_elements = None\<rparr>"

definition empty_bcp_req :: bcp_req where
  "empty_bcp_req = \<lparr>bcp_required = None\<rparr>"

section \<open>Evaluator state, statuses, results and errors\<close>

text \<open>The only exception the evaluator raises on a typed document: a missing key.\<close>

datatype error = KeyError string

text \<open>The dataclass; its field \<^verbatim>\<open>text\<close> is \<open>text_of\<close>.\<close>

record ControlStatus =
  control_id :: pystr
  required :: bool
  satisfied :: bool
  text_of :: pystr
  tags :: "pystr list"

text \<open>
  A Python \<^verbatim>\<open>dict\<close> keeps its keys in insertion order and assigning to a present key
  keeps the key's position: an association list under \<open>AList.update\<close>.
\<close>

type_synonym status_map = "(pystr \<times> ControlStatus) list"

text \<open>
  The object: \<^verbatim>\<open>self.rules\<close> and \<^verbatim>\<open>self.notes\<close>. The dictionary that
  \<^verbatim>\<open>_build_context\<close> returns is the record \<open>ctx\<close>.
\<close>

record evaluator =
  self_rules :: rule_document
  self_notes :: pystr

record ctx =
  handles_pii :: bool
  remote_work_allowed :: bool
  software_provider :: bool

text \<open>
  The \<^verbatim>\<open>context\<close> block of a result: the three flags, and the sorted incident elements
  except in the two degenerate results, where the key is absent.
\<close>

record result_context = ctx +
  incident_elements :: "pystr list option"

datatype rating = No_information_provided | N_a | Very_favorable | Favorable | Neutral
  | Unfavorable | Very_unfavorable

datatype details =
    Empty_details
  | Rating_details (d_rating: rating) (satisfied_controls: "pystr list")
      (missing_controls: "pystr list") (incident_response_elements: "pystr list")
      (info_tech_overview: "pystr list")
  | Fallback_details (reason: string) (missing_controls: "pystr list")

record result =
  r_rating :: rating
  r_details :: details
  r_context :: result_context

section \<open>The evaluator\<close>

text \<open>Sequencing of computations that may raise.\<close>

definition ebind :: "error + 'a \<Rightarrow> ('a \<Rightarrow> error + 'b) \<Rightarrow> error + 'b" where
  "ebind m f = (case m of Inl e \<Rightarrow> Inl e | Inr v \<Rightarrow> f v)"

text \<open>A \<^verbatim>\<open>for\<close> loop over a list whose body updates a state and may raise.\<close>

fun for_each :: "('s \<Rightarrow> 'a \<Rightarrow> error + 's) \<Rightarrow> 'a list \<Rightarrow> 's \<Rightarrow> error + 's" where
  "for_each body [] st = Inr st"
| "for_each body (x # xs) st = ebind (body st x) (for_each body xs)"

definition SOFTWARE_PROVIDER_KEYWORDS :: "pystr list" where
  "SOFTWARE_PROVIDER_KEYWORDS = map str
     [''software provider'', ''software development'', ''develops software'',
      ''developing software'', ''builds software'', ''provides software'', ''saas'',
      ''platform as a service'', ''application development'']"

definition build_context :: "pyrt \<Rightarrow> evaluator \<Rightarrow> error + ctx" where
  "build_context rt self =
     (case conditions (self_rules self) of
        None \<Rightarrow> Inl (KeyError ''conditions'')
      | Some conds \<Rightarrow>
          let logical_conditions = dget (cond_logical_access_controls conds) empty_lac_conditions;
              pii = list_ex (statement_present rt (self_notes self))
                      (dget (pii_positive_statements logical_conditions) []);
              remote_condition =
                dget (enforce_only_if_remote_work_allowed
                        (dget (cond_remote_workforce conds) empty_rw_conditions)) [];
              remote_allowed = (remote_condition \<noteq> []
                 \<and> statement_present rt (self_notes self) remote_condition);
              software = list_ex (contains (self_notes self)) SOFTWARE_PROVIDER_KEYWORDS
          in Inr \<lparr>handles_pii = pii, remote_work_allowed = remote_allowed,
                  software_provider = software\<rparr>)"

text \<open>
  The loop of \<^verbatim>\<open>_apply_cross_satisfaction\<close>: the inner loop stops at the first trigger
  that is present, after adding the rule's targets.
\<close>

fun cross_loop :: "pyrt \<Rightarrow> pystr \<Rightarrow> cross_rule list \<Rightarrow> pystr set \<Rightarrow> pystr set" where
  "cross_loop rt nts [] acc = acc"
| "cross_loop rt nts (rule # rs) acc =
     (let if_any = dget (if_any_statement_present rule) []
      in cross_loop rt nts rs
           (if list_ex (statement_present rt nts) if_any
            then acc \<union> set (dget (then_mark_controls_met rule) [])
            else acc))"

definition apply_cross_satisfaction :: "pyrt \<Rightarrow> evaluator \<Rightarrow> error + pystr set" where
  "apply_cross_satisfaction rt self =
     (case conditions (self_rules self) of
        None \<Rightarrow> Inl (KeyError ''conditions'')
      | Some conds \<Rightarrow>
          Inr (cross_loop rt (self_notes self) (dget (cond_cross_satisfaction conds) []) {}))"

definition statement_satisfies_control :: "pyrt \<Rightarrow> evaluator \<Rightarrow> pystr \<Rightarrow> pystr \<Rightarrow> error + bool" where
  "statement_satisfies_control rt self cid control_text =
     (if statement_present rt (self_notes self) control_text then Inr True
      else if cid \<noteq> [] \<and> contains (self_notes self) cid then Inr True
      else
        let words = re_split_W rt cid;
            token = join (str '' '') (tl words)
        in if length words > 1 \<and> token \<noteq> [] \<and> contains (self_notes self) token then Inr True
           else if cid = str ''lac_passwords_encrypted_in_transit'' then
             (case conditions (self_rules self) of
                None \<Rightarrow> Inl (KeyError ''conditions'')
              | Some conds \<Rightarrow>
                 (case cond_logical_access_controls conds of
                    None \<Rightarrow> Inl (KeyError ''logical_access_controls'')
                  | Some lac \<Rightarrow>
                      let negatives =
                        dget (passwords_encrypted_in_transit_only_if_negative_statement_present lac) []
                      in if list_ex (statement_present rt (self_notes self)) negatives
                         then Inr False
                         else Inr False))
           else Inr False)"

definition register_control ::
  "status_map \<Rightarrow> pystr \<Rightarrow> bool \<Rightarrow> bool \<Rightarrow> pystr \<Rightarrow> pystr list \<Rightarrow> status_map" where
  "register_control status cid is_required is_satisfied txt tgs =
     AList.update cid
       \<lparr>control_id = cid, required = is_required, satisfied = is_satisfied,
        text_of = txt, tags = tgs\<rparr> status"

definition check_control ::
  "pyrt \<Rightarrow> evaluator \<Rightarrow> pystr set \<Rightarrow> status_map \<Rightarrow> control_def \<Rightarrow> bool \<Rightarrow> error + status_map" where
  "check_control rt self cross_satisfied status control is_required =
     (let cid = c_id control;
          control_text = dget (c_text control) []
      in ebind (if cid \<in> cross_satisfied then Inr True
                else statement_satisfies_control rt self cid control_text)
           (\<lambda>is_satisfied. Inr (register_control status cid is_required is_satisfied
                                   control_text (dget (c_tags control) []))))"

text \<open>The bodies of the first two iterations over the catalog in \<^verbatim>\<open>_evaluate_controls\<close>.\<close>

definition lac_body ::
  "pyrt \<Rightarrow> evaluator \<Rightarrow> conditions_doc \<Rightarrow> ctx \<Rightarrow> pystr set \<Rightarrow> status_map \<Rightarrow> control_def
     \<Rightarrow> error + status_map" where
  "lac_body rt self conds context cross_satisfied status control =
     (let is_required =
        (if c_id control = str ''lac_mfa_critical_or_pii''
            \<and> truthy (enforce_mfa_critical_or_pii_if_company_handles_pii
                        (dget (cond_logical_access_controls conds) empty_lac_conditions))
            \<and> \<not> handles_pii context
         then False else True)
      in check_control rt self cross_satisfied status control is_required)"

definition pii_body ::
  "pyrt \<Rightarrow> evaluator \<Rightarrow> conditions_doc \<Rightarrow> ctx \<Rightarrow> pystr set \<Rightarrow> status_map \<Rightarrow> control_def
     \<Rightarrow> error + status_map" where
  "pii_body rt self conds context cross_satisfied status control =
     (let net_conds = dget (cond_network_information_security conds) empty_net_conditions;
          is_required = (\<not> (truthy (enforce_pii_controls_if_company_handles_pii net_conds)
                             \<and> \<not> handles_pii context))
      in if c_id control = str ''net_pii_need_to_know''
            \<and> truthy (do_not_enforce_need_to_know_if_least_privilege_statement_present net_conds)
         then (case map_of status (str ''lac_least_privilege'') of
                 None \<Rightarrow> check_control rt self cross_satisfied status control is_required
               | Some least_privilege \<Rightarrow>
                   if satisfied least_privilege
                   then Inr (register_control status (c_id control) False True
                               (dget (c_text control) []) (dget (c_tags control) []))
                   else check_control rt self cross_satisfied status control is_required)
         else check_control rt self cross_satisfied status control is_required)"

definition evaluate_controls :: "pyrt \<Rightarrow> evaluator \<Rightarrow> ctx \<Rightarrow> pystr set \<Rightarrow> error + status_map" where
  "evaluate_controls rt self context cross_satisfied =
     (let conds = dget (conditions (self_rules self)) empty_conditions;
          cat = dget (catalog (self_rules self)) empty_catalog;
          network_catalog = dget (cat_network_information_security cat) empty_net_catalog
      in
      ebind (for_each (lac_body rt self conds context cross_satisfied)
               (dget (cat_logical_access_controls cat) []) []) (\<lambda>st1.
      ebind (for_each (pii_body rt self conds context cross_satisfied)
               (dget (pii_controls network_catalog) []) st1) (\<lambda>st2.
      ebind (for_each (\<lambda>st c. check_control rt self cross_satisfied st c True)
               (dget (controls network_catalog) []) st2) (\<lambda>st3.
      ebind (for_each (\<lambda>st c. check_control rt self cross_satisfied st c
                                 (software_provider context))
               (dget (cat_change_mgmt_sdlc cat) []) st3) (\<lambda>st4.
      ebind (for_each (\<lambda>st c. check_control rt self cross_satisfied st c
                                 (remote_work_allowed context))
               (dget (cat_remote_workforce cat) []) st4) (\<lambda>st5.
      for_each (\<lambda>st c. check_control rt self cross_satisfied st c True)
               (dget (cat_business_continuity cat) []) st5))))))"

definition collect_incident_response_elements :: "pyrt \<Rightarrow> evaluator \<Rightarrow> error + pystr set" where
  "collect_incident_response_elements rt self =
     (case catalog (self_rules self) of
        None \<Rightarrow> Inl (KeyError ''catalog'')
      | Some cat \<Rightarrow>
          Inr (set (filter (statement_present rt (self_notes self))
                      (dget (cat_incident_response_elements cat) []))))"

definition evaluate_info_tech_overview :: "pyrt \<Rightarrow> evaluator \<Rightarrow> error + pystr set" where
  "evaluate_info_tech_overview rt self =
     (case ratings (self_rules self) of
        None \<Rightarrow> Inl (KeyError ''ratings'')
      | Some rs \<Rightarrow>
         (case very_favorable rs of
            None \<Rightarrow> Inl (KeyError ''very_favorable'')
          | Some vf \<Rightarrow>
             (case req_info_tech_overview vf of
                None \<Rightarrow> Inl (KeyError ''info_tech_overview'')
              | Some ito \<Rightarrow>
                  Inr (set (filter (statement_present rt (self_notes self))
                              (dget (ito_required ito) []))))))"

definition evaluate_business_continuity :: "status_map \<Rightarrow> bool" where
  "evaluate_business_continuity control_status =
     (case map_of control_status (str ''bcp_plan'') of
        None \<Rightarrow> False
      | Some bcp_control \<Rightarrow> satisfied bcp_control)"

section \<open>The rating determiner\<close>

text \<open>\<^verbatim>\<open>sum(1 for ctrl in cs if ctrl.satisfied)\<close>.\<close>

definition count_satisfied :: "ControlStatus list \<Rightarrow> int" where
  "count_satisfied cs = int (length (filter satisfied cs))"

text \<open>
  The optional tag check shared by two categories: with a non-empty tag, some satisfied
  control of the list must carry it.
\<close>

definition tag_check :: "pystr option \<Rightarrow> ControlStatus list \<Rightarrow> bool" where
  "tag_check tag cs =
     (case tag of
        None \<Rightarrow> True
      | Some t \<Rightarrow>
          if t \<noteq> [] \<and> \<not> list_ex (\<lambda>ctrl. satisfied ctrl \<and> t \<in> set (tags ctrl)) cs
          then False else True)"

definition meets_info_tech_overview :: "ito_req \<Rightarrow> pystr set \<Rightarrow> bool" where
  "meets_info_tech_overview requirement present =
     list_all (\<lambda>statement. statement \<in> present) (dget (ito_required requirement) [])"

definition category_controls :: "pystr \<Rightarrow> status_map \<Rightarrow> ControlStatus list" where
  "category_controls pfx status = map snd (filter (\<lambda>(ctrl_id, ctrl). prefix pfx ctrl_id) status)"

definition meets_logical_access_controls :: "lac_req \<Rightarrow> status_map \<Rightarrow> bool" where
  "meets_logical_access_controls requirement status =
     (let cs = category_controls (str ''lac_'') status;
          required_controls = filter required cs
      in if truthy (lac_required_all requirement) then list_all satisfied required_controls
         else if count_satisfied required_controls < dget (lac_min_count requirement) 0 then False
         else tag_check (lac_must_include_tag requirement) required_controls)"

definition meets_network_controls :: "net_req \<Rightarrow> ctx \<Rightarrow> status_map \<Rightarrow> bool" where
  "meets_network_controls requirement context status =
     (let pii_cs = filter required (category_controls (str ''net_pii_'') status)
      in if truthy (pii_controls_required_if_company_handles_pii requirement)
            \<and> handles_pii context
            \<and> (pii_cs = [] \<or> \<not> list_all satisfied pii_cs)
         then False
         else
           let net_controls =
                 filter (\<lambda>ctrl. prefix (str ''net_'') (control_id ctrl)
                                 \<and> \<not> prefix (str ''net_pii_'') (control_id ctrl))
                        (map snd status);
               required_controls = filter required net_controls
           in if truthy (controls_required_all requirement)
              then list_all satisfied required_controls
              else if count_satisfied required_controls < dget (net_min_count requirement) 0
              then False
              else tag_check (net_must_include_tag requirement) required_controls)"

definition status_satisfied :: "status_map \<Rightarrow> pystr \<Rightarrow> bool" where
  "status_satisfied status cid =
     (case map_of status cid of None \<Rightarrow> False | Some ctrl \<Rightarrow> satisfied ctrl)"

definition meets_change_mgmt :: "chg_req \<Rightarrow> ctx \<Rightarrow> status_map \<Rightarrow> bool" where
  "meets_change_mgmt requirement context status =
     (let cs = category_controls (str ''chg_'') status;
          required_controls = filter required cs
      in if \<not> software_provider context then True
         else if truthy (chg_required_all requirement) then list_all satisfied required_controls
         else if truthy (require_change_mgmt_process requirement)
                 \<and> \<not> status_satisfied status (str ''chg_change_mgmt_process'')
         then False
         else
           let from_ids = dget (min_count_from requirement) []
           in if from_ids \<noteq> []
              then (if int (length (filter (status_satisfied status) from_ids))
                         < dget (chg_min_count requirement) 0
                    then False else True)
              else (if count_satisfied required_controls < dget (chg_min_count requirement) 0
                    then False else True))"

definition meets_remote_workforce :: "rw_req \<Rightarrow> ctx \<Rightarrow> status_map \<Rightarrow> bool" where
  "meets_remote_workforce requirement context status =
     (let cs = category_controls (str ''rw_'') status;
          required_controls = filter required cs
      in if \<not> remote_work_allowed context then True
         else if truthy (rw_required_all requirement) then list_all satisfied required_controls
         else if count_satisfied required_controls < dget (rw_min_count requirement) 0 then False
         else True)"

definition meets_incident_response :: "ir_req \<Rightarrow> pystr set \<Rightarrow> bool" where
  "meets_incident_response requirement elements =
     (case min_elements requirement of
        None \<Rightarrow> True
      | Some m \<Rightarrow> int (card elements) \<ge> m)"

text \<open>
  \<^verbatim>\<open>if not requirement\<close> tests for the empty object, which here is the record with no
  key present.
\<close>

definition meets_business_continuity :: "bcp_req \<Rightarrow> bool \<Rightarrow> bool" where
  "meets_business_continuity requirement has_plan =
     (if requirement = empty_bcp_req then True
      else if truthy (bcp_required requirement) \<and> \<not> has_plan then False
      else True)"

definition meets_rating ::
  "tier_req \<Rightarrow> ctx \<Rightarrow> status_map \<Rightarrow> pystr set \<Rightarrow> pystr set \<Rightarrow> bool \<Rightarrow> bool" where
  "meets_rating requirements context control_status elements overview business_continuity =
     (if \<not> meets_info_tech_overview
              (dget (req_info_tech_overview requirements) empty_ito_req) overview
      then False
      else if \<not> meets_logical_access_controls
                   (dget (req_logical_access_controls requirements) empty_lac_req) control_status
      then False
      else if \<not> meets_network_controls
                   (dget (req_network_information_security requirements) empty_net_req)
                   context control_status
      then False
      else if \<not> meets_change_mgmt
                   (dget (req_change_mgmt_sdlc requirements) empty_chg_req) context control_status
      then False
      else if \<not> meets_remote_workforce
                   (dget (req_remote_workforce requirements) empty_rw_req) context control_status
      then False
      else if \<not> meets_incident_response
                   (dget (req_incident_response requirements) empty_ir_req) elements
      then False
      else if \<not> meets_business_continuity
                   (dget (req_business_continuity requirements) empty_bcp_req) business_continuity
      then False
      else True)"

definition missing_required_controls :: "status_map \<Rightarrow> pystr list" where
  "missing_required_controls status =
     sort (map control_id (filter (\<lambda>ctrl. required ctrl \<and> \<not> satisfied ctrl) (map snd status)))"

definition build_rating_details ::
  "rating \<Rightarrow> status_map \<Rightarrow> pystr set \<Rightarrow> pystr set \<Rightarrow> details" where
  "build_rating_details rtg status elements overview =
     Rating_details rtg
       (sort (map control_id (filter (\<lambda>ctrl. satisfied ctrl \<and> required ctrl) (map snd status))))
       (missing_required_controls status)
       (sorted_list_of_set elements)
       (sorted_list_of_set overview)"

definition ratings_order :: "rating list" where
  "ratings_order = [Very_favorable, Favorable, Neutral, Unfavorable]"

text \<open>\<^verbatim>\<open>self.rules["ratings"][rating]\<close> for the name of a rating.\<close>

fun rating_key :: "rating \<Rightarrow> string" where
  "rating_key No_information_provided = ''no_information_provided''"
| "rating_key N_a = ''n_a''"
| "rating_key Very_favorable = ''very_favorable''"
| "rating_key Favorable = ''favorable''"
| "rating_key Neutral = ''neutral''"
| "rating_key Unfavorable = ''unfavorable''"
| "rating_key Very_unfavorable = ''very_unfavorable''"

fun tier_lookup :: "ratings_doc \<Rightarrow> rating \<Rightarrow> tier_req option" where
  "tier_lookup rs Very_favorable = very_favorable rs"
| "tier_lookup rs Favorable = favorable rs"
| "tier_lookup rs Neutral = neutral rs"
| "tier_lookup rs Unfavorable = unfavorable rs"
| "tier_lookup rs _ = None"

definition fallback_reason :: string where
  "fallback_reason =
     ''Vendor did not satisfy the minimum safeguards for an unfavorable rating.''"

text \<open>The loop of \<^verbatim>\<open>_determine_rating\<close> over the remaining tiers, and its fallback.\<close>

fun rating_loop ::
  "evaluator \<Rightarrow> ctx \<Rightarrow> status_map \<Rightarrow> pystr set \<Rightarrow> pystr set \<Rightarrow> bool \<Rightarrow> rating list
     \<Rightarrow> error + rating \<times> details" where
  "rating_loop self context control_status elements overview bc [] =
     Inr (Very_unfavorable,
          Fallback_details fallback_reason (missing_required_controls control_status))"
| "rating_loop self context control_status elements overview bc (rtg # rest) =
     (case ratings (self_rules self) of
        None \<Rightarrow> Inl (KeyError ''ratings'')
      | Some rs \<Rightarrow>
         (case tier_lookup rs rtg of
            None \<Rightarrow> Inl (KeyError (rating_key rtg))
          | Some requirements \<Rightarrow>
              if meets_rating requirements context control_status elements overview bc
              then Inr (rtg, build_rating_details rtg control_status elements overview)
              else rating_loop self context control_status elements overview bc rest))"

definition determine_rating ::
  "evaluator \<Rightarrow> ctx \<Rightarrow> status_map \<Rightarrow> pystr set \<Rightarrow> pystr set \<Rightarrow> bool
     \<Rightarrow> error + rating \<times> details" where
  "determine_rating self context control_status elements overview bc =
     rating_loop self context control_status elements overview bc ratings_order"

text \<open>The result of the two degenerate cases.\<close>

definition degenerate_result :: "rating \<Rightarrow> result" where
  "degenerate_result rtg =
     \<lparr>r_rating = rtg, r_details = Empty_details,
      r_context = \<lparr>handles_pii = False, remote_work_allowed = False,
                   software_provider = False, incident_elements = None\<rparr>\<rparr>"

text \<open>
  \<^verbatim>\<open>evaluate\<close> assigns \<^verbatim>\<open>self.notes\<close> first, so the object is returned with the result;
  \<open>evaluate_body\<close> is the part after the two degenerate cases.
\<close>

definition evaluate_body :: "pyrt \<Rightarrow> evaluator \<Rightarrow> error + result" where
  "evaluate_body rt self =
     ebind (build_context rt self) (\<lambda>context.
     ebind (apply_cross_satisfaction rt self) (\<lambda>cross_satisfied.
     ebind (evaluate_controls rt self context cross_satisfied) (\<lambda>control_status.
     ebind (collect_incident_response_elements rt self) (\<lambda>elements.
     ebind (evaluate_info_tech_overview rt self) (\<lambda>overview.
     let business_continuity = evaluate_business_continuity control_status
     in ebind (determine_rating self context control_status elements overview
                 business_continuity) (\<lambda>(rtg, rating_details).
        Inr \<lparr>r_rating = rtg, r_details = rating_details,
             r_context = \<lparr>handles_pii = handles_pii context,
                          remote_work_allowed = remote_work_allowed context,
                          software_provider = software_provider context,
                          incident_elements = Some (sorted_list_of_set elements)\<rparr>\<rparr>))))))"

definition evaluate :: "pyrt \<Rightarrow> evaluator \<Rightarrow> pystr \<Rightarrow> (error + result) \<times> evaluator" where
  "evaluate rt self nts =
     (let self' = self\<lparr>self_notes := normalize_str rt nts\<rparr>
      in if self_notes self' = [] then (Inr (degenerate_result No_information_provided), self')
         else if contains (self_notes self') (str ''not applicable'')
                 \<or> re_search_n_a rt None (self_notes self')
         then (Inr (degenerate_result N_a), self')
         else (evaluate_body rt self', self'))"

section \<open>Notions used to state the properties\<close>

text \<open>
  The favourability order of the ratings a rule evaluation can award: the position in
  \<^verbatim>\<open>ratings_order\<close>, with the fallback below all tiers.
\<close>

fun favorability :: "rating \<Rightarrow> nat" where
  "favorability Very_favorable = 4"
| "favorability Favorable = 3"
| "favorability Neutral = 2"
| "favorability Unfavorable = 1"
| "favorability _ = 0"

text \<open>The identifiers of the catalog, in the order \<^verbatim>\<open>_evaluate_controls\<close> visits them.\<close>

definition catalog_controls :: "rule_document \<Rightarrow> control_def list" where
  "catalog_controls doc =
     (let cat = dget (catalog doc) empty_catalog;
          network_catalog = dget (cat_network_information_security cat) empty_net_catalog
      in dget (cat_logical_access_controls cat) []
         @ dget (pii_controls network_catalog) []
         @ dget (controls network_catalog) []
         @ dget (cat_change_mgmt_sdlc cat) []
         @ dget (cat_remote_workforce cat) []
         @ dget (cat_business_continuity cat) [])"

text \<open>The object after \<^verbatim>\<open>evaluate\<close> has assigned \<^verbatim>\<open>self.notes\<close>.\<close>

definition with_notes :: "pyrt \<Rightarrow> evaluator \<Rightarrow> pystr \<Rightarrow> evaluator" where
  "with_notes rt self nts = self\<lparr>self_notes := normalize_str rt nts\<rparr>"

text \<open>
  The control map of the evaluation of some notes: what \<^verbatim>\<open>evaluate\<close> binds to
  \<^verbatim>\<open>control_status\<close>, from the context and the cross-satisfied set of the same call.
\<close>

definition control_map :: "pyrt \<Rightarrow> evaluator \<Rightarrow> pystr \<Rightarrow> error + status_map" where
  "control_map rt self nts =
     (let self' = with_notes rt self nts
      in ebind (build_context rt self') (\<lambda>context.
         ebind (apply_cross_satisfaction rt self') (\<lambda>cross_satisfied.
         evaluate_controls rt self' context cross_satisfied)))"

text \<open>Notes that take one of the two degenerate exits of \<^verbatim>\<open>evaluate\<close>.\<close>

definition degenerate :: "pyrt \<Rightarrow> pystr \<Rightarrow> bool" where
  "degenerate rt nts =
     (normalize_str rt nts = []
      \<or> contains (normalize_str rt nts) (str ''not applicable'')
      \<or> re_search_n_a rt None (normalize_str rt nts))"

text \<open>What one visit of a control does to the status map, when it does not raise.\<close>

definition registers :: "pystr set \<Rightarrow> status_map \<Rightarrow> control_def \<Rightarrow> status_map \<Rightarrow> bool" where
  "registers cross st c st' =
     (\<exists>r s. st' = register_control st (c_id c) r s (dget (c_text c) []) (dget (c_tags c) [])
            \<and> (c_id c \<in> cross \<longrightarrow> s))"

text \<open>Every key of the control map is the identifier of its status, and no key repeats.\<close>

definition well_keyed :: "status_map \<Rightarrow> bool" where
  "well_keyed st = (list_all (\<lambda>(k, v). control_id v = k) st \<and> distinct (map fst st))"

text \<open>
  The two catalog lists and the flag that the need-to-know override reads.
\<close>

definition lac_catalog :: "rule_document \<Rightarrow> control_def list" where
  "lac_catalog doc = dget (cat_logical_access_controls (dget (catalog doc) empty_catalog)) []"

definition pii_catalog :: "rule_document \<Rightarrow> control_def list" where
  "pii_catalog doc =
     dget (pii_controls (dget (cat_network_information_security
                                (dget (catalog doc) empty_catalog)) empty_net_catalog)) []"

definition need_to_know_override_enabled :: "rule_document \<Rightarrow> bool" where
  "need_to_know_override_enabled doc =
     truthy (do_not_enforce_need_to_know_if_least_privilege_statement_present
               (dget (cond_network_information_security (dget (conditions doc) empty_conditions))
                  empty_net_conditions))"

text \<open>
  Comparing the control maps of two evaluations of one rule document: entry by entry the
  same control, and satisfied in the second map when satisfied in the first;
  \<open>ctrl_le\<close> and \<open>entry_le\<close> ask the same required flag as well.
\<close>

definition status_le :: "pystr \<times> ControlStatus \<Rightarrow> pystr \<times> ControlStatus \<Rightarrow> bool" where
  "status_le a b =
     (fst a = fst b \<and> control_id (snd a) = control_id (snd b) \<and> tags (snd a) = tags (snd b)
      \<and> (satisfied (snd a) \<longrightarrow> satisfied (snd b)))"

definition ctrl_le :: "ControlStatus \<Rightarrow> ControlStatus \<Rightarrow> bool" where
  "ctrl_le v w =
     (control_id v = control_id w \<and> tags v = tags w \<and> required v = required w
      \<and> (satisfied v \<longrightarrow> satisfied w))"

definition entry_le :: "pystr \<times> ControlStatus \<Rightarrow> pystr \<times> ControlStatus \<Rightarrow> bool" where
  "entry_le a b = (fst a = fst b \<and> ctrl_le (snd a) (snd b))"

section \<open>Example documents\<close>

definition no_rules :: rule_document where
  "no_rules = \<lparr>conditions = None, catalog = None, ratings = None\<rparr>"

definition control :: "string \<Rightarrow> string \<Rightarrow> string list \<Rightarrow> control_def" where
  "control cid txt tgs = \<lparr>c_id = str cid, c_text = Some (str txt), c_tags = Some (map str tgs)\<rparr>"

definition example_conditions :: conditions_doc where
  "example_conditions =
     \<lparr>cond_logical_access_controls = Some
        \<lparr>pii_positive_statements = Some [str ''customer pii is stored''],
         enforce_mfa_critical_or_pii_if_company_handles_pii = Some True,
         passwords_encrypted_in_transit_only_if_negative_statement_present =
           Some [str ''passwords are sent in clear text'']\<rparr>,
      cond_remote_workforce = Some
        \<lparr>enforce_only_if_remote_work_allowed = Some (str ''remote work is allowed'')\<rparr>,
      cond_cross_satisfaction = Some
        [\<lparr>if_any_statement_present = Some [str ''sso is enforced''],
          then_mark_controls_met = Some [str ''lac_mfa_critical_or_pii'']\<rparr>],
      cond_network_information_security = Some
        \<lparr>enforce_pii_controls_if_company_handles_pii = Some True,
         do_not_enforce_need_to_know_if_least_privilege_statement_present = Some True\<rparr>\<rparr>"

definition example_catalog :: catalog_doc where
  "example_catalog =
     \<lparr>cat_logical_access_controls = Some
        [control ''lac_least_privilege'' ''least privilege is enforced'' [''access''],
         control ''lac_passwords_encrypted_in_transit'' ''passwords are encrypted in transit'' [],
         control ''lac_mfa_critical_or_pii'' ''mfa is required'' [''mfa'']],
      cat_network_information_security = Some
        \<lparr>pii_controls = Some [control ''net_pii_need_to_know'' ''access to pii is need to know'' []],
         controls = Some [control ''net_firewall'' ''firewalls are deployed'' []]\<rparr>,
      cat_change_mgmt_sdlc = Some [control ''chg_change_mgmt_process'' ''changes are reviewed'' []],
      cat_remote_workforce = Some [control ''rw_vpn'' ''vpn is required'' []],
      cat_business_continuity = Some [control ''bcp_plan'' ''a continuity plan exists'' []],
      cat_incident_response_elements = Some [str ''incidents are triaged'']\<rparr>"

text \<open>
  Three tiers ask that the PII controls be satisfied when the company handles PII and
  that one logical-access control be satisfied; the lowest tier asks only the latter.
\<close>

definition pii_tier :: tier_req where
  "pii_tier =
     \<lparr>req_info_tech_overview = Some \<lparr>ito_required = None\<rparr>,
      req_logical_access_controls = Some
        \<lparr>lac_required_all = None, lac_min_count = Some 1, lac_must_include_tag = None\<rparr>,
      req_network_information_security = Some
        \<lparr>pii_controls_required_if_company_handles_pii = Some True,
         controls_required_all = None, net_min_count = None, net_must_include_tag = None\<rparr>,
      req_change_mgmt_sdlc = None, req_remote_workforce = None,
      req_incident_response = None, req_business_continuity = None\<rparr>"

definition lowest_tier :: tier_req where
  "lowest_tier =
     \<lparr>req_info_tech_overview = None,
      req_logical_access_controls = Some
        \<lparr>lac_required_all = None, lac_min_count = Some 1, lac_must_include_tag = None\<rparr>,
      req_network_information_security = None,
      req_change_mgmt_sdlc = None, req_remote_workforce = None,
      req_incident_response = None, req_business_continuity = None\<rparr>"

definition example_rules :: rule_document where
  "example_rules =
     \<lparr>conditions = Some example_conditions,
      catalog = Some example_catalog,
      ratings = Some \<lparr>very_favorable = Some pii_tier, favorable = Some pii_tier,
                      neutral = Some pii_tier, unfavorable = Some lowest_tier\<rparr>\<rparr>"

definition example_evaluator :: evaluator where
  "example_evaluator = \<lparr>self_rules = example_rules, self_notes = []\<rparr>"

section \<open>Unfolding rules for concrete inputs\<close>

lemmas text_eval = normalize_str_def str_def ascii_rt_def ascii_lower_cp_def ascii_isalnum_def
  isspace_def strip_def mojibake_ellipsis_def isword_def boundary_def word_at_def first_char_def

lemmas doc_eval = example_evaluator_def example_rules_def example_conditions_def
  example_catalog_def pii_tier_def lowest_tier_def control_def no_rules_def
  dget_def truthy_def empty_lac_conditions_def empty_rw_conditions_def empty_net_conditions_def
  empty_conditions_def empty_net_catalog_def empty_catalog_def empty_ito_req_def
  empty_lac_req_def empty_net_req_def empty_chg_req_def empty_rw_req_def empty_ir_req_def
  empty_bcp_req_def

lemmas run_eval = evaluate_def evaluate_body_def ebind_def build_context_def
  apply_cross_satisfaction_def statement_satisfies_control_def register_control_def
  check_control_def lac_body_def pii_body_def evaluate_controls_def
  collect_incident_response_elements_def evaluate_info_tech_overview_def
  evaluate_business_continuity_def count_satisfied_def tag_check_def
  meets_info_tech_overview_def category_controls_def meets_logical_access_controls_def
  meets_network_controls_def status_satisfied_def meets_change_mgmt_def
  meets_remote_workforce_def meets_incident_response_def meets_business_continuity_def
  meets_rating_def missing_required_controls_def build_rating_details_def ratings_order_def
  fallback_reason_def determine_rating_def degenerate_result_def statement_present_def
  SOFTWARE_PROVIDER_KEYWORDS_def with_notes_def degenerate_def Let_def
  sorted_list_of_set_sort_remdups

section \<open>Statement presence\<close>

lemma contains_iff_sublist: "contains hay needle \<longleftrightarrow> sublist needle hay"
  by (induction hay) (auto simp: sublist_Cons_right)

text \<open>
  Claim C4. Against the normalized corpus, the statement-presence test is false for the
  empty statement, and otherwise true exactly when the statement, normalized like the
  corpus, is a contiguous substring of the normalized corpus. A statement of whitespace
  only normalizes to the empty string, which is a substring of every corpus.
\<close>

theorem statement_present_spec:
  "statement_present rt (normalize_str rt corpus) statement
     = (statement \<noteq> [] \<and> sublist (normalize_str rt statement) (normalize_str rt corpus))"
  by (simp add: statement_present_def contains_iff_sublist)

theorem statement_present_spec_witness:
  "statement_present ascii_rt (normalize_str ascii_rt (str ''MFA  is Enforced'')) (str ''mfa is'')
   \<and> statement_present ascii_rt (normalize_str ascii_rt (str ''MFA  is Enforced'')) (str ''  '')
   \<and> \<not> statement_present ascii_rt (normalize_str ascii_rt (str ''MFA  is Enforced'')) []"
  using statement_present_spec [of ascii_rt "str ''MFA  is Enforced''" "str ''mfa is''"]
    statement_present_spec [of ascii_rt "str ''MFA  is Enforced''" "str ''  ''"]
    statement_present_spec [of ascii_rt "str ''MFA  is Enforced''" "[]"]
  by (simp add: text_eval)

section \<open>The negative statements of the password control\<close>

text \<open>
  Claim C1. For \<^verbatim>\<open>lac_passwords_encrypted_in_transit\<close> a negative statement present in
  the corpus should force the control to be unsatisfied. In the source the negative
  statements are read only after the three positive tests have returned, so the notes
  below, which hold the control's text and a configured negative statement, satisfy the
  control.
\<close>

theorem negative_statement_does_not_override:
  "statement_present ascii_rt
     (self_notes (with_notes ascii_rt example_evaluator
        (str ''Passwords are encrypted in transit, but passwords are sent in clear text on old hosts.'')))
     (str ''passwords are sent in clear text'')
   \<and> statement_satisfies_control ascii_rt
        (with_notes ascii_rt example_evaluator
          (str ''Passwords are encrypted in transit, but passwords are sent in clear text on old hosts.''))
        (str ''lac_passwords_encrypted_in_transit'') (str ''passwords are encrypted in transit'')
      = Inr True"
  by (simp add: text_eval statement_present_def statement_satisfies_control_def with_notes_def)

section \<open>The degenerate results\<close>

text \<open>
  Claim C5. When the normalized notes are empty the rating is
  \<^verbatim>\<open>no_information_provided\<close>; otherwise, when they contain \<^verbatim>\<open>not applicable\<close> or match
  \<^verbatim>\<open>\bn/a\b\<close>, the rating is \<^verbatim>\<open>n_a\<close>. Both results have empty details and a context
  block of three false flags, whatever the rule document holds: no rule is read.
\<close>

theorem degenerate_short_circuit:
  "(normalize_str rt nts = [] \<longrightarrow>
      fst (evaluate rt self nts) =
        Inr \<lparr>r_rating = No_information_provided, r_details = Empty_details,
             r_context = \<lparr>handles_pii = False, remote_work_allowed = False,
                          software_provider = False, incident_elements = None\<rparr>\<rparr>)
   \<and> (normalize_str rt nts \<noteq> []
        \<and> (contains (normalize_str rt nts) (str ''not applicable'')
             \<or> re_search_n_a rt None (normalize_str rt nts)) \<longrightarrow>
      fst (evaluate rt self nts) =
        Inr \<lparr>r_rating = N_a, r_details = Empty_details,
             r_context = \<lparr>handles_pii = False, remote_work_allowed = False,
                          software_provider = False, incident_elements = None\<rparr>\<rparr>)"
  by (simp add: evaluate_def Let_def degenerate_result_def)

theorem degenerate_short_circuit_witness:
  "fst (evaluate ascii_rt \<lparr>self_rules = no_rules, self_notes = []\<rparr> (str ''   ''))
     = Inr (degenerate_result No_information_provided)
   \<and> fst (evaluate ascii_rt \<lparr>self_rules = no_rules, self_notes = []\<rparr>
            (str ''MFA is required. Status: N/A''))
     = Inr (degenerate_result N_a)"
  using degenerate_short_circuit [of ascii_rt "str ''   ''" "\<lparr>self_rules = no_rules, self_notes = []\<rparr>"]
    degenerate_short_circuit [of ascii_rt "str ''MFA is required. Status: N/A''"
      "\<lparr>self_rules = no_rules, self_notes = []\<rparr>"]
  by (simp add: text_eval degenerate_result_def)

section \<open>Determinism\<close>

text \<open>
  Claim C9. Two calls of \<^verbatim>\<open>evaluate\<close> with the same notes on the same object give the
  same result: the first call leaves the rule document as it was, and the result of a
  call depends on the object only through its rule document, not through the notes a
  previous call has left in it.
\<close>

theorem evaluate_deterministic:
  "fst (evaluate rt (snd (evaluate rt self nts)) nts) = fst (evaluate rt self nts)
   \<and> self_rules (snd (evaluate rt self nts)) = self_rules self
   \<and> (self_rules other = self_rules self \<longrightarrow>
        fst (evaluate rt other nts) = fst (evaluate rt self nts))"
  by (cases self; cases other) (simp add: evaluate_def Let_def)

theorem evaluate_deterministic_witness:
  "fst (evaluate ascii_rt
          (snd (evaluate ascii_rt \<lparr>self_rules = no_rules, self_notes = str ''old''\<rparr> (str ''n/a'')))
          (str ''n/a''))
     = fst (evaluate ascii_rt \<lparr>self_rules = no_rules, self_notes = str ''old''\<rparr> (str ''n/a''))"
  using evaluate_deterministic [of ascii_rt "\<lparr>self_rules = no_rules, self_notes = str ''old''\<rparr>"
      "str ''n/a''" "\<lparr>self_rules = no_rules, self_notes = []\<rparr>"]
  by simp

section \<open>The iterations of the control evaluator\<close>

lemma ebind_Inr_iff: "ebind m f = Inr y \<longleftrightarrow> (\<exists>x. m = Inr x \<and> f x = Inr y)"
  by (cases m) (simp_all add: ebind_def)

lemma ebind_Inl_iff: "ebind m f = Inl e \<longleftrightarrow> m = Inl e \<or> (\<exists>x. m = Inr x \<and> f x = Inl e)"
  by (cases m) (simp_all add: ebind_def)

lemma for_each_append:
  "for_each body (xs @ ys) st = ebind (for_each body xs st) (for_each body ys)"
  by (induction xs arbitrary: st) (auto simp: ebind_def split: sum.splits)

lemma for_each_invariant:
  assumes "for_each body xs st = Inr st'" and "P st"
    and "\<And>s x s'. x \<in> set xs \<Longrightarrow> P s \<Longrightarrow> body s x = Inr s' \<Longrightarrow> P s'"
  shows "P st'"
  using assms by (induction xs arbitrary: st) (auto simp: ebind_Inr_iff)

lemma for_each_error:
  assumes "for_each body xs st = Inl e"
  shows "\<exists>s x. x \<in> set xs \<and> body s x = Inl e"
  using assms
proof (induction xs arbitrary: st)
  case Nil
  then show ?case by simp
next
  case (Cons a xs)
  from Cons.prems have "body st a = Inl e \<or> (\<exists>x. body st a = Inr x \<and> for_each body xs x = Inl e)"
    by (simp add: ebind_Inl_iff)
  then show ?case
  proof
    assume "body st a = Inl e"
    then show ?thesis by auto
  next
    assume "\<exists>x. body st a = Inr x \<and> for_each body xs x = Inl e"
    then obtain x where "for_each body xs x = Inl e" by blast
    from Cons.IH [OF this] show ?thesis by auto
  qed
qed

lemma check_control_registers:
  "check_control rt self cross st c r = Inr st' \<Longrightarrow> registers cross st c st'"
  by (auto simp: check_control_def registers_def Let_def ebind_Inr_iff split: if_splits)

lemma lac_body_registers:
  "lac_body rt self conds context cross st c = Inr st' \<Longrightarrow> registers cross st c st'"
  unfolding lac_body_def Let_def by (rule check_control_registers)

lemma pii_body_registers:
  "pii_body rt self conds context cross st c = Inr st' \<Longrightarrow> registers cross st c st'"
  unfolding pii_body_def Let_def
  by (auto split: if_splits option.splits dest: check_control_registers simp: registers_def)

lemma statement_satisfies_control_error:
  "statement_satisfies_control rt self cid txt = Inl e \<Longrightarrow>
     (e = KeyError ''conditions'' \<and> conditions (self_rules self) = None)
     \<or> e = KeyError ''logical_access_controls''"
  by (auto simp: statement_satisfies_control_def Let_def split: if_splits option.splits)

lemma check_control_error:
  "check_control rt self cross st c r = Inl e \<Longrightarrow>
     (e = KeyError ''conditions'' \<and> conditions (self_rules self) = None)
     \<or> e = KeyError ''logical_access_controls''"
  by (auto simp: check_control_def Let_def ebind_Inl_iff split: if_splits
      dest: statement_satisfies_control_error)

lemma lac_body_error:
  "lac_body rt self conds context cross st c = Inl e \<Longrightarrow>
     (e = KeyError ''conditions'' \<and> conditions (self_rules self) = None)
     \<or> e = KeyError ''logical_access_controls''"
  unfolding lac_body_def Let_def by (rule check_control_error)

lemma pii_body_error:
  "pii_body rt self conds context cross st c = Inl e \<Longrightarrow>
     (e = KeyError ''conditions'' \<and> conditions (self_rules self) = None)
     \<or> e = KeyError ''logical_access_controls''"
  unfolding pii_body_def Let_def
  by (auto split: if_splits option.splits dest: check_control_error)

text \<open>The six iterations of \<^verbatim>\<open>_evaluate_controls\<close> as one fact.\<close>

lemma evaluate_controls_passes:
  assumes "evaluate_controls rt self context cross = Inr status"
  obtains st1 st2 st3 st4 st5 cat net where
    "cat = dget (catalog (self_rules self)) empty_catalog"
    "net = dget (cat_network_information_security cat) empty_net_catalog"
    "for_each (lac_body rt self (dget (conditions (self_rules self)) empty_conditions) context cross)
       (dget (cat_logical_access_controls cat) []) [] = Inr st1"
    "for_each (pii_body rt self (dget (conditions (self_rules self)) empty_conditions) context cross)
       (dget (pii_controls net) []) st1 = Inr st2"
    "for_each (\<lambda>st c. check_control rt self cross st c True) (dget (controls net) []) st2 = Inr st3"
    "for_each (\<lambda>st c. check_control rt self cross st c (software_provider context))
       (dget (cat_change_mgmt_sdlc cat) []) st3 = Inr st4"
    "for_each (\<lambda>st c. check_control rt self cross st c (remote_work_allowed context))
       (dget (cat_remote_workforce cat) []) st4 = Inr st5"
    "for_each (\<lambda>st c. check_control rt self cross st c True)
       (dget (cat_business_continuity cat) []) st5 = Inr status"
  using assms unfolding evaluate_controls_def Let_def ebind_Inr_iff by blast

lemma evaluate_controls_invariant:
  assumes run: "evaluate_controls rt self context cross = Inr status"
    and init: "P []"
    and step: "\<And>st c st'. c \<in> set (catalog_controls (self_rules self)) \<Longrightarrow> P st
                 \<Longrightarrow> registers cross st c st' \<Longrightarrow> P st'"
  shows "P status"
proof -
  from run obtain st1 st2 st3 st4 st5 cat net where
    cat: "cat = dget (catalog (self_rules self)) empty_catalog"
    and net: "net = dget (cat_network_information_security cat) empty_net_catalog"
    and l1: "for_each (lac_body rt self (dget (conditions (self_rules self)) empty_conditions) context cross)
       (dget (cat_logical_access_controls cat) []) [] = Inr st1"
    and l2: "for_each (pii_body rt self (dget (conditions (self_rules self)) empty_conditions) context cross)
       (dget (pii_controls net) []) st1 = Inr st2"
    and l3: "for_each (\<lambda>st c. check_control rt self cross st c True) (dget (controls net) []) st2 = Inr st3"
    and l4: "for_each (\<lambda>st c. check_control rt self cross st c (software_provider context))
       (dget (cat_change_mgmt_sdlc cat) []) st3 = Inr st4"
    and l5: "for_each (\<lambda>st c. check_control rt self cross st c (remote_work_allowed context))
       (dget (cat_remote_workforce cat) []) st4 = Inr st5"
    and l6: "for_each (\<lambda>st c. check_control rt self cross st c True)
       (dget (cat_business_continuity cat) []) st5 = Inr status"
    by (rule evaluate_controls_passes)
  have mem: "set (catalog_controls (self_rules self)) =
      set (dget (cat_logical_access_controls cat) []) \<union> set (dget (pii_controls net) [])
      \<union> set (dget (controls net) []) \<union> set (dget (cat_change_mgmt_sdlc cat) [])
      \<union> set (dget (cat_remote_workforce cat) []) \<union> set (dget (cat_business_continuity cat) [])"
    by (auto simp: catalog_controls_def Let_def cat net)
  have p1: "P st1"
    by (rule for_each_invariant [where P = P, OF l1 init]) (auto simp: mem intro: step dest: lac_body_registers)
  have p2: "P st2"
    by (rule for_each_invariant [where P = P, OF l2 p1]) (auto simp: mem intro: step dest: pii_body_registers)
  have p3: "P st3"
    by (rule for_each_invariant [where P = P, OF l3 p2]) (auto simp: mem intro: step dest: check_control_registers)
  have p4: "P st4"
    by (rule for_each_invariant [where P = P, OF l4 p3]) (auto simp: mem intro: step dest: check_control_registers)
  have p5: "P st5"
    by (rule for_each_invariant [where P = P, OF l5 p4]) (auto simp: mem intro: step dest: check_control_registers)
  show ?thesis
    by (rule for_each_invariant [where P = P, OF l6 p5]) (auto simp: mem intro: step dest: check_control_registers)
qed

lemma evaluate_controls_error:
  assumes "evaluate_controls rt self context cross = Inl e"
  shows "(e = KeyError ''conditions'' \<and> conditions (self_rules self) = None)
     \<or> e = KeyError ''logical_access_controls''"
  using assms unfolding evaluate_controls_def Let_def ebind_Inl_iff
  by (auto dest!: for_each_error dest: lac_body_error pii_body_error check_control_error)

section \<open>The status map\<close>

lemma update_set_subset: "set (AList.update k v al) \<subseteq> insert (k, v) (set al)"
  by (induction al) auto

lemma for_each_keys:
  assumes "for_each body xs st = Inr st'"
    and "\<And>s x s'. body s x = Inr s' \<Longrightarrow> registers cross s x s'"
  shows "fst ` set st' = fst ` set st \<union> c_id ` set xs"
  using assms(1)
proof (induction xs arbitrary: st)
  case Nil
  then show ?case by simp
next
  case (Cons a xs)
  from Cons.prems obtain s where s: "body st a = Inr s" and rest: "for_each body xs s = Inr st'"
    by (auto simp: ebind_Inr_iff)
  from assms(2) [OF s] obtain v where "s = AList.update (c_id a) v st"
    unfolding registers_def register_control_def by blast
  then have "fst ` set s = insert (c_id a) (fst ` set st)"
    by (simp add: dom_update)
  with Cons.IH [OF rest] show ?case by auto
qed

lemma evaluate_controls_keys:
  assumes run: "evaluate_controls rt self context cross = Inr status"
  shows "fst ` set status = c_id ` set (catalog_controls (self_rules self))"
proof -
  from run obtain st1 st2 st3 st4 st5 cat net where
    cat: "cat = dget (catalog (self_rules self)) empty_catalog"
    and net: "net = dget (cat_network_information_security cat) empty_net_catalog"
    and l1: "for_each (lac_body rt self (dget (conditions (self_rules self)) empty_conditions) context cross)
       (dget (cat_logical_access_controls cat) []) [] = Inr st1"
    and l2: "for_each (pii_body rt self (dget (conditions (self_rules self)) empty_conditions) context cross)
       (dget (pii_controls net) []) st1 = Inr st2"
    and l3: "for_each (\<lambda>st c. check_control rt self cross st c True) (dget (controls net) []) st2 = Inr st3"
    and l4: "for_each (\<lambda>st c. check_control rt self cross st c (software_provider context))
       (dget (cat_change_mgmt_sdlc cat) []) st3 = Inr st4"
    and l5: "for_each (\<lambda>st c. check_control rt self cross st c (remote_work_allowed context))
       (dget (cat_remote_workforce cat) []) st4 = Inr st5"
    and l6: "for_each (\<lambda>st c. check_control rt self cross st c True)
       (dget (cat_business_continuity cat) []) st5 = Inr status"
    by (rule evaluate_controls_passes)
  note k1 = for_each_keys [OF l1 lac_body_registers]
    and k2 = for_each_keys [OF l2 pii_body_registers]
    and k3 = for_each_keys [OF l3 check_control_registers]
    and k4 = for_each_keys [OF l4 check_control_registers]
    and k5 = for_each_keys [OF l5 check_control_registers]
    and k6 = for_each_keys [OF l6 check_control_registers]
  show ?thesis
    using k1 k2 k3 k4 k5 k6
    by (simp add: catalog_controls_def Let_def cat net image_Un Un_assoc)
qed

lemma registers_well_keyed: "well_keyed st \<Longrightarrow> registers cross st c st' \<Longrightarrow> well_keyed st'"
  using update_set_subset
  by (fastforce simp: well_keyed_def registers_def register_control_def list_all_iff distinct_update)

lemma evaluate_controls_well_keyed:
  "evaluate_controls rt self context cross = Inr status \<Longrightarrow> well_keyed status"
proof (erule evaluate_controls_invariant [where P = well_keyed])
  show "well_keyed []" by (simp add: well_keyed_def)
next
  fix st c st'
  assume "well_keyed st" and "registers cross st c st'"
  then show "well_keyed st'" by (rule registers_well_keyed)
qed

lemma well_keyed_ids:
  assumes "well_keyed st"
  shows "set (map control_id (filter Q (map snd st))) = {cid. \<exists>cs. map_of st cid = Some cs \<and> Q cs}"
proof -
  from assms have d: "distinct (map fst st)" and k: "\<And>k v. (k, v) \<in> set st \<Longrightarrow> control_id v = k"
    by (auto simp: well_keyed_def list_all_iff)
  show ?thesis
  proof (intro set_eqI iffI)
    fix cid assume "cid \<in> set (map control_id (filter Q (map snd st)))"
    then obtain k v where kv: "(k, v) \<in> set st" and q: "Q v" and c: "cid = control_id v"
      by auto
    from k [OF kv] c have "k = cid" by simp
    with kv d have "map_of st cid = Some v" by simp
    with q show "cid \<in> {cid. \<exists>cs. map_of st cid = Some cs \<and> Q cs}" by blast
  next
    fix cid assume "cid \<in> {cid. \<exists>cs. map_of st cid = Some cs \<and> Q cs}"
    then obtain cs where m: "map_of st cid = Some cs" and q: "Q cs" by blast
    from m have kv: "(cid, cs) \<in> set st" by (rule map_of_SomeD)
    from k [OF kv] have "control_id cs = cid" .
    with kv q show "cid \<in> set (map control_id (filter Q (map snd st)))" by force
  qed
qed

lemma missing_required_controls_set:
  "well_keyed st \<Longrightarrow> set (missing_required_controls st)
     = {cid. \<exists>cs. map_of st cid = Some cs \<and> required cs \<and> \<not> satisfied cs}"
  unfolding missing_required_controls_def
  using well_keyed_ids [of st "\<lambda>ctrl. required ctrl \<and> \<not> satisfied ctrl"] by simp

lemma well_keyed_distinct_ids:
  assumes "well_keyed st"
  shows "distinct (map control_id (filter Q (map snd st)))"
proof -
  from assms have "\<forall>x\<in>set st. (control_id \<circ> snd) x = fst x"
    by (auto simp: well_keyed_def list_all_iff)
  then have "map (control_id \<circ> snd) st = map fst st"
    by (simp only: map_eq_conv)
  then have "map control_id (map snd st) = map fst st"
    by simp
  with assms have "distinct (map control_id (map snd st))"
    by (simp only: well_keyed_def)
  then show ?thesis
    by (simp add: distinct_map_filter)
qed

lemma rating_loop_result:
  "rating_loop self context st el ov bc ts = Inr (r, d) \<Longrightarrow>
     (r \<in> set ts \<and> d = build_rating_details r st el ov)
     \<or> (r = Very_unfavorable \<and> d = Fallback_details fallback_reason (missing_required_controls st))"
  by (induction ts) (auto split: option.splits if_splits)

text \<open>The stages of a call of \<^verbatim>\<open>evaluate\<close> that returns from its last statement.\<close>

lemma evaluate_stages:
  assumes "fst (evaluate rt self nts) = Inr res" and "\<not> degenerate rt nts"
  obtains cx cross status elements overview rtg d where
    "build_context rt (with_notes rt self nts) = Inr cx"
    "apply_cross_satisfaction rt (with_notes rt self nts) = Inr cross"
    "evaluate_controls rt (with_notes rt self nts) cx cross = Inr status"
    "control_map rt self nts = Inr status"
    "collect_incident_response_elements rt (with_notes rt self nts) = Inr elements"
    "evaluate_info_tech_overview rt (with_notes rt self nts) = Inr overview"
    "determine_rating (with_notes rt self nts) cx status elements overview
       (evaluate_business_continuity status) = Inr (rtg, d)"
    "res = \<lparr>r_rating = rtg, r_details = d,
            r_context = \<lparr>handles_pii = handles_pii cx,
                         remote_work_allowed = remote_work_allowed cx,
                         software_provider = software_provider cx,
                         incident_elements = Some (sorted_list_of_set elements)\<rparr>\<rparr>"
proof -
  from assms have "evaluate_body rt (with_notes rt self nts) = Inr res"
    by (auto simp: evaluate_def degenerate_def with_notes_def Let_def split: if_splits)
  then obtain cx cross status elements overview rtg d where
    st: "build_context rt (with_notes rt self nts) = Inr cx"
      "apply_cross_satisfaction rt (with_notes rt self nts) = Inr cross"
      "evaluate_controls rt (with_notes rt self nts) cx cross = Inr status"
      "collect_incident_response_elements rt (with_notes rt self nts) = Inr elements"
      "evaluate_info_tech_overview rt (with_notes rt self nts) = Inr overview"
      "determine_rating (with_notes rt self nts) cx status elements overview
         (evaluate_business_continuity status) = Inr (rtg, d)"
      "res = \<lparr>r_rating = rtg, r_details = d,
            r_context = \<lparr>handles_pii = handles_pii cx,
                         remote_work_allowed = remote_work_allowed cx,
                         software_provider = software_provider cx,
                         incident_elements = Some (sorted_list_of_set elements)\<rparr>\<rparr>"
    unfolding evaluate_body_def Let_def ebind_Inr_iff by auto
  from st(1-3) have cm: "control_map rt self nts = Inr status"
    by (simp add: control_map_def Let_def ebind_def)
  show ?thesis by (rule that [OF st(1-3) cm st(4-7)])
qed

lemma degenerate_rating:
  assumes "fst (evaluate rt self nts) = Inr res" and "degenerate rt nts"
  shows "r_rating res = No_information_provided \<or> r_rating res = N_a"
  using assms
  by (auto simp: evaluate_def degenerate_def Let_def degenerate_result_def split: if_splits)

text \<open>
  Claim C6. When an evaluation ends in the \<^verbatim>\<open>very_unfavorable\<close> fallback, the
  \<^verbatim>\<open>missing_controls\<close> of its details are exactly the identifiers whose status in the
  control map of the same evaluation is required and not satisfied, over all categories
  (sorted, each once).
\<close>

theorem fallback_missing_controls:
  assumes "fst (evaluate rt self nts) = Inr res" and "r_rating res = Very_unfavorable"
  shows "\<exists>status ms. control_map rt self nts = Inr status
           \<and> r_details res = Fallback_details fallback_reason ms
           \<and> set ms = {cid. \<exists>cs. map_of status cid = Some cs \<and> required cs \<and> \<not> satisfied cs}
           \<and> sorted ms \<and> distinct ms"
proof -
  from assms have nd: "\<not> degenerate rt nts"
    using degenerate_rating by fastforce
  from assms(1) nd obtain cx cross status elements overview rtg d where
    ec: "evaluate_controls rt (with_notes rt self nts) cx cross = Inr status"
    and cm: "control_map rt self nts = Inr status"
    and dr: "determine_rating (with_notes rt self nts) cx status elements overview
       (evaluate_business_continuity status) = Inr (rtg, d)"
    and res: "res = \<lparr>r_rating = rtg, r_details = d,
            r_context = \<lparr>handles_pii = handles_pii cx,
                         remote_work_allowed = remote_work_allowed cx,
                         software_provider = software_provider cx,
                         incident_elements = Some (sorted_list_of_set elements)\<rparr>\<rparr>"
    by (rule evaluate_stages)
  from res assms(2) have "rtg = Very_unfavorable" by simp
  moreover from dr have "rating_loop (with_notes rt self nts) cx status elements overview
       (evaluate_business_continuity status) ratings_order = Inr (rtg, d)"
    by (simp add: determine_rating_def)
  note rating_loop_result [OF this]
  ultimately have d: "d = Fallback_details fallback_reason (missing_required_controls status)"
    by (auto simp: ratings_order_def)
  have wk: "well_keyed status" using ec by (rule evaluate_controls_well_keyed)
  have "distinct (missing_required_controls status)"
    unfolding missing_required_controls_def using well_keyed_distinct_ids [OF wk] by simp
  moreover have "sorted (missing_required_controls status)"
    by (simp add: missing_required_controls_def)
  ultimately show ?thesis
    using cm d res missing_required_controls_set [OF wk] by auto
qed

lemma satisfied_required_controls_set:
  "well_keyed st \<Longrightarrow>
     set (sort (map control_id (filter (\<lambda>ctrl. satisfied ctrl \<and> required ctrl) (map snd st))))
     = {cid. \<exists>cs. map_of st cid = Some cs \<and> satisfied cs \<and> required cs}"
  using well_keyed_ids [of st "\<lambda>ctrl. satisfied ctrl \<and> required ctrl"] by simp

text \<open>
  Claim C10. When a tier is awarded, \<^verbatim>\<open>satisfied_controls\<close> holds exactly the identifiers
  of the controls that are satisfied and required, and \<^verbatim>\<open>missing_controls\<close> those that are
  required and not satisfied; a control that is satisfied but not required is in neither
  list.
\<close>

theorem tier_details_lists:
  assumes "fst (evaluate rt self nts) = Inr res" and "r_rating res \<in> set ratings_order"
  shows "\<exists>status sat mis inc ito.
           control_map rt self nts = Inr status
         \<and> r_details res = Rating_details (r_rating res) sat mis inc ito
         \<and> set sat = {cid. \<exists>cs. map_of status cid = Some cs \<and> satisfied cs \<and> required cs}
         \<and> set mis = {cid. \<exists>cs. map_of status cid = Some cs \<and> required cs \<and> \<not> satisfied cs}
         \<and> (\<forall>cid cs. map_of status cid = Some cs \<and> satisfied cs \<and> \<not> required cs
               \<longrightarrow> cid \<notin> set sat \<and> cid \<notin> set mis)"
proof -
  from assms have nd: "\<not> degenerate rt nts"
    using degenerate_rating by (fastforce simp: ratings_order_def)
  from assms(1) nd obtain cx cross status elements overview rtg d where
    ec: "evaluate_controls rt (with_notes rt self nts) cx cross = Inr status"
    and cm: "control_map rt self nts = Inr status"
    and dr: "determine_rating (with_notes rt self nts) cx status elements overview
       (evaluate_business_continuity status) = Inr (rtg, d)"
    and res: "res = \<lparr>r_rating = rtg, r_details = d,
            r_context = \<lparr>handles_pii = handles_pii cx,
                         remote_work_allowed = remote_work_allowed cx,
                         software_provider = software_provider cx,
                         incident_elements = Some (sorted_list_of_set elements)\<rparr>\<rparr>"
    by (rule evaluate_stages)
  from res assms(2) have "rtg \<noteq> Very_unfavorable" by (auto simp: ratings_order_def)
  moreover from dr have "rating_loop (with_notes rt self nts) cx status elements overview
       (evaluate_business_continuity status) ratings_order = Inr (rtg, d)"
    by (simp add: determine_rating_def)
  note rating_loop_result [OF this]
  ultimately have d: "d = build_rating_details rtg status elements overview"
    by auto
  have wk: "well_keyed status" using ec by (rule evaluate_controls_well_keyed)
  let ?sat = "sort (map control_id (filter (\<lambda>ctrl. satisfied ctrl \<and> required ctrl) (map snd status)))"
  let ?mis = "missing_required_controls status"
  have 1: "r_details res = Rating_details (r_rating res) ?sat ?mis
             (sorted_list_of_set elements) (sorted_list_of_set overview)"
    using res d by (simp add: build_rating_details_def)
  have 2: "set ?sat = {cid. \<exists>cs. map_of status cid = Some cs \<and> satisfied cs \<and> required cs}"
    using wk by (rule satisfied_required_controls_set)
  have 3: "set ?mis = {cid. \<exists>cs. map_of status cid = Some cs \<and> required cs \<and> \<not> satisfied cs}"
    using wk by (rule missing_required_controls_set)
  have 4: "\<forall>cid cs. map_of status cid = Some cs \<and> satisfied cs \<and> \<not> required cs
               \<longrightarrow> cid \<notin> set ?sat \<and> cid \<notin> set ?mis"
    unfolding 2 3 by auto
  from cm 1 2 3 4 show ?thesis by blast
qed

lemma evaluate_controls_no_catalog:
  "catalog (self_rules self) = None \<Longrightarrow> evaluate_controls rt self cx cross = Inr []"
  by (simp add: evaluate_controls_def dget_def empty_catalog_def empty_net_catalog_def ebind_def)

text \<open>
  Claim C3. For notes that are not degenerate, a rule document without its
  \<^verbatim>\<open>conditions\<close>, \<^verbatim>\<open>catalog\<close> or \<^verbatim>\<open>ratings\<close> section makes the evaluation raise a
  \<^verbatim>\<open>KeyError\<close> that names a missing key. \<^verbatim>\<open>_evaluate_controls\<close> alone reads an absent
  catalog as an empty one, but the evaluation then raises in
  \<^verbatim>\<open>_collect_incident_response_elements\<close>, so no result is returned.
\<close>

theorem missing_section_aborts:
  assumes "\<not> degenerate rt nts"
  shows "(conditions (self_rules self) = None \<longrightarrow>
            fst (evaluate rt self nts) = Inl (KeyError ''conditions''))
       \<and> (conditions (self_rules self) \<noteq> None \<and> catalog (self_rules self) = None \<longrightarrow>
            fst (evaluate rt self nts) = Inl (KeyError ''catalog''))
       \<and> (conditions (self_rules self) \<noteq> None \<and> catalog (self_rules self) \<noteq> None
            \<and> ratings (self_rules self) = None \<longrightarrow>
            fst (evaluate rt self nts) = Inl (KeyError ''logical_access_controls'')
            \<or> fst (evaluate rt self nts) = Inl (KeyError ''ratings''))"
proof -
  let ?self = "with_notes rt self nts"
  have rules: "self_rules ?self = self_rules self" by (simp add: with_notes_def)
  from assms have ev: "fst (evaluate rt self nts) = evaluate_body rt ?self"
    by (auto simp: evaluate_def degenerate_def with_notes_def Let_def)
  have c1: "fst (evaluate rt self nts) = Inl (KeyError ''conditions'')"
    if "conditions (self_rules self) = None"
    using that by (simp add: ev evaluate_body_def build_context_def rules ebind_def)
  have c2: "fst (evaluate rt self nts) = Inl (KeyError ''catalog'')"
    if "conditions (self_rules self) \<noteq> None" "catalog (self_rules self) = None"
    using that evaluate_controls_no_catalog [of ?self rt]
    by (auto simp: ev evaluate_body_def build_context_def apply_cross_satisfaction_def rules
        ebind_def Let_def collect_incident_response_elements_def)
  have c3: "fst (evaluate rt self nts) = Inl (KeyError ''logical_access_controls'')
            \<or> fst (evaluate rt self nts) = Inl (KeyError ''ratings'')"
    if c: "conditions (self_rules self) \<noteq> None" and k: "catalog (self_rules self) \<noteq> None"
      and r: "ratings (self_rules self) = None"
  proof -
    from c obtain cx where cx: "build_context rt ?self = Inr cx"
      by (auto simp: build_context_def rules Let_def)
    from c obtain cross where cross: "apply_cross_satisfaction rt ?self = Inr cross"
      by (auto simp: apply_cross_satisfaction_def rules)
    from k obtain el where el: "collect_incident_response_elements rt ?self = Inr el"
      by (auto simp: collect_incident_response_elements_def rules)
    from r have ito: "evaluate_info_tech_overview rt ?self = Inl (KeyError ''ratings'')"
      by (simp add: evaluate_info_tech_overview_def rules)
    show ?thesis
    proof (cases "evaluate_controls rt ?self cx cross")
      case (Inl e)
      with c evaluate_controls_error [OF Inl] have "e = KeyError ''logical_access_controls''"
        by (auto simp: rules)
      with Inl cx cross show ?thesis
        by (simp add: ev evaluate_body_def ebind_def)
    next
      case (Inr st)
      with cx cross el ito show ?thesis
        by (simp add: ev evaluate_body_def ebind_def)
    qed
  qed
  from c1 c2 c3 show ?thesis by blast
qed

text \<open>
  Claim C7. A control whose identifier is in the cross-satisfied set is registered as
  satisfied without any text matching (so without the error text matching can raise),
  and in the control map of an evaluation every catalog control with such an identifier
  is satisfied.
\<close>

theorem cross_satisfaction_precedence:
  "(c_id c \<in> cross \<longrightarrow>
      check_control rt self cross st c r
        = Inr (register_control st (c_id c) r True (dget (c_text c) []) (dget (c_tags c) [])))
   \<and> (evaluate_controls rt self cx cross = Inr status
        \<and> c \<in> set (catalog_controls (self_rules self)) \<and> c_id c \<in> cross \<longrightarrow>
      (\<exists>cs. map_of status (c_id c) = Some cs \<and> satisfied cs))"
proof (intro conjI impI)
  assume "c_id c \<in> cross"
  then show "check_control rt self cross st c r
        = Inr (register_control st (c_id c) r True (dget (c_text c) []) (dget (c_tags c) []))"
    by (simp add: check_control_def Let_def ebind_def)
next
  assume a: "evaluate_controls rt self cx cross = Inr status
        \<and> c \<in> set (catalog_controls (self_rules self)) \<and> c_id c \<in> cross"
  then have run: "evaluate_controls rt self cx cross = Inr status" by simp
  let ?P = "\<lambda>st. \<forall>k v. (k, v) \<in> set st \<and> k \<in> cross \<longrightarrow> satisfied v"
  have inv: "?P status"
  proof (rule evaluate_controls_invariant [where P = ?P, OF run])
    show "?P []" by simp
  next
    fix st d st'
    assume p: "?P st" and "registers cross st d st'"
    then obtain rq s where st': "st' = AList.update (c_id d)
          \<lparr>control_id = c_id d, required = rq, satisfied = s,
           text_of = dget (c_text d) [], tags = dget (c_tags d) []\<rparr> st"
      and s: "c_id d \<in> cross \<longrightarrow> s"
      unfolding registers_def register_control_def by blast
    show "?P st'"
    proof (intro allI impI)
      fix k v assume kv: "(k, v) \<in> set st' \<and> k \<in> cross"
      let ?v = "\<lparr>control_id = c_id d, required = rq, satisfied = s,
           text_of = dget (c_text d) [], tags = dget (c_tags d) []\<rparr>"
      from kv st' update_set_subset [of "c_id d" ?v st]
      have "(k, v) \<in> insert (c_id d, ?v) (set st)" by blast
      then have "(k, v) \<in> set st \<or> (k = c_id d \<and> satisfied v = s)" by auto
      with p kv s show "satisfied v" by blast
    qed
  qed
  from a evaluate_controls_keys [OF run] have "c_id c \<in> fst ` set status" by auto
  then obtain cs where m: "map_of status (c_id c) = Some cs"
    by (metis weak_map_of_SomeI imageE prod.collapse)
  from map_of_SomeD [OF m] inv a have "satisfied cs" by blast
  with m show "\<exists>cs. map_of status (c_id c) = Some cs \<and> satisfied cs" by blast
qed

section \<open>The need-to-know override\<close>

lemma registers_untouched:
  "registers cross st c st' \<Longrightarrow> k \<noteq> c_id c \<Longrightarrow> map_of st' k = map_of st k"
  by (auto simp: registers_def register_control_def update_conv')

lemma for_each_untouched:
  assumes "for_each body xs st = Inr st'"
    and "\<And>s x s'. body s x = Inr s' \<Longrightarrow> registers cross s x s'"
    and "k \<notin> c_id ` set xs"
  shows "map_of st' k = map_of st k"
  using assms(1,3)
proof (induction xs arbitrary: st)
  case Nil
  then show ?case by simp
next
  case (Cons a xs)
  from Cons.prems obtain s where s: "body st a = Inr s" and rest: "for_each body xs s = Inr st'"
    by (auto simp: ebind_Inr_iff)
  from Cons.prems have "k \<noteq> c_id a" and "k \<notin> c_id ` set xs" by auto
  with Cons.IH [OF rest] registers_untouched [OF assms(2) [OF s]] show ?case by simp
qed

lemma distinct_map_append_notin:
  "distinct (map f (xs @ ys)) \<Longrightarrow> k \<in> f ` set xs \<Longrightarrow> k \<notin> f ` set ys"
  by auto

lemma distinct_map_Cons_notin:
  "distinct (map f (xs @ c # ys)) \<Longrightarrow> f c \<notin> f ` set ys"
  by auto

text \<open>
  Claim C8. In a catalog whose identifiers are distinct, with the override flag set,
  \<^verbatim>\<open>lac_least_privilege\<close> among the logical-access controls (so evaluated before the
  network categories) and satisfied, and \<^verbatim>\<open>net_pii_need_to_know\<close> among the PII controls,
  the status of \<^verbatim>\<open>net_pii_need_to_know\<close> is \<^verbatim>\<open>required=False, satisfied=True\<close>.
\<close>

theorem need_to_know_override:
  assumes run: "evaluate_controls rt self cx cross = Inr status"
    and dist: "distinct (map c_id (catalog_controls (self_rules self)))"
    and flag: "need_to_know_override_enabled (self_rules self)"
    and lp_in: "str ''lac_least_privilege'' \<in> c_id ` set (lac_catalog (self_rules self))"
    and ntk_in: "str ''net_pii_need_to_know'' \<in> c_id ` set (pii_catalog (self_rules self))"
    and lp_sat: "status_satisfied status (str ''lac_least_privilege'')"
  shows "\<exists>cs. map_of status (str ''net_pii_need_to_know'') = Some cs
            \<and> \<not> required cs \<and> satisfied cs"
proof -
  let ?lp = "str ''lac_least_privilege''" and ?ntk = "str ''net_pii_need_to_know''"
  let ?conds = "dget (conditions (self_rules self)) empty_conditions"
  from run obtain st1 st2 st3 st4 st5 cat net where
    cat: "cat = dget (catalog (self_rules self)) empty_catalog"
    and net: "net = dget (cat_network_information_security cat) empty_net_catalog"
    and l1: "for_each (lac_body rt self ?conds cx cross)
       (dget (cat_logical_access_controls cat) []) [] = Inr st1"
    and l2: "for_each (pii_body rt self ?conds cx cross)
       (dget (pii_controls net) []) st1 = Inr st2"
    and l3: "for_each (\<lambda>st c. check_control rt self cross st c True) (dget (controls net) []) st2 = Inr st3"
    and l4: "for_each (\<lambda>st c. check_control rt self cross st c (software_provider cx))
       (dget (cat_change_mgmt_sdlc cat) []) st3 = Inr st4"
    and l5: "for_each (\<lambda>st c. check_control rt self cross st c (remote_work_allowed cx))
       (dget (cat_remote_workforce cat) []) st4 = Inr st5"
    and l6: "for_each (\<lambda>st c. check_control rt self cross st c True)
       (dget (cat_business_continuity cat) []) st5 = Inr status"
    by (rule evaluate_controls_passes)
  let ?L1 = "dget (cat_logical_access_controls cat) []" and ?L2 = "dget (pii_controls net) []"
    and ?L3 = "dget (controls net) []" and ?L4 = "dget (cat_change_mgmt_sdlc cat) []"
    and ?L5 = "dget (cat_remote_workforce cat) []" and ?L6 = "dget (cat_business_continuity cat) []"
  have all: "catalog_controls (self_rules self) = ?L1 @ ?L2 @ ?L3 @ ?L4 @ ?L5 @ ?L6"
    by (simp only: catalog_controls_def Let_def cat net)
  from ntk_in have "?ntk \<in> c_id ` set ?L2"
    by (simp only: pii_catalog_def cat net)
  then obtain c where cmem: "c \<in> set ?L2" and c: "c_id c = ?ntk"
    by auto
  from split_list [OF cmem] obtain pre post where L2: "?L2 = pre @ c # post"
    by blast
  from lp_in have lp1: "?lp \<in> c_id ` set ?L1"
    by (simp only: lac_catalog_def cat)
  from dist have "distinct (map c_id (?L1 @ (?L2 @ ?L3 @ ?L4 @ ?L5 @ ?L6)))"
    by (simp only: all)
  from distinct_map_append_notin [OF this lp1]
  have "?lp \<notin> c_id ` set (?L2 @ ?L3 @ ?L4 @ ?L5 @ ?L6)" .
  then have lp_out: "?lp \<notin> c_id ` set pre" "?lp \<notin> c_id ` set (c # post)"
    "?lp \<notin> c_id ` set ?L3" "?lp \<notin> c_id ` set ?L4" "?lp \<notin> c_id ` set ?L5" "?lp \<notin> c_id ` set ?L6"
    unfolding L2 by (simp_all add: image_Un)
  from dist have "distinct (map c_id ((?L1 @ pre) @ c # (post @ ?L3 @ ?L4 @ ?L5 @ ?L6)))"
    by (simp only: all L2 append_assoc append_Cons)
  from distinct_map_Cons_notin [OF this]
  have "?ntk \<notin> c_id ` set (post @ ?L3 @ ?L4 @ ?L5 @ ?L6)" unfolding c .
  then have ntk_out: "?ntk \<notin> c_id ` set post"
    "?ntk \<notin> c_id ` set ?L3" "?ntk \<notin> c_id ` set ?L4" "?ntk \<notin> c_id ` set ?L5" "?ntk \<notin> c_id ` set ?L6"
    by (simp_all add: image_Un)
  from l2 obtain sa sb where pre: "for_each (pii_body rt self ?conds cx cross) pre st1 = Inr sa"
    and step: "pii_body rt self ?conds cx cross sa c = Inr sb"
    and post: "for_each (pii_body rt self ?conds cx cross) post sb = Inr st2"
    by (auto simp: L2 for_each_append ebind_Inr_iff)
  from l2 have cpost: "for_each (pii_body rt self ?conds cx cross) (c # post) sa = Inr st2"
    using step post by (simp add: ebind_def)
  have "map_of status ?lp = map_of st5 ?lp"
    by (rule for_each_untouched [OF l6 check_control_registers lp_out(6)])
  also have "\<dots> = map_of st4 ?lp"
    by (rule for_each_untouched [OF l5 check_control_registers lp_out(5)])
  also have "\<dots> = map_of st3 ?lp"
    by (rule for_each_untouched [OF l4 check_control_registers lp_out(4)])
  also have "\<dots> = map_of st2 ?lp"
    by (rule for_each_untouched [OF l3 check_control_registers lp_out(3)])
  also have "\<dots> = map_of sa ?lp"
    by (rule for_each_untouched [OF cpost pii_body_registers lp_out(2)])
  finally have "map_of sa ?lp = map_of status ?lp" by simp
  with lp_sat obtain v where v: "map_of sa ?lp = Some v" "satisfied v"
    by (auto simp: status_satisfied_def split: option.splits)
  let ?new = "\<lparr>control_id = ?ntk, required = False, satisfied = True,
      text_of = dget (c_text c) [], tags = dget (c_tags c) []\<rparr>"
  from flag v c step have sb: "sb = AList.update ?ntk ?new sa"
    by (simp add: pii_body_def Let_def need_to_know_override_enabled_def register_control_def)
  have "map_of status ?ntk = map_of st5 ?ntk"
    by (rule for_each_untouched [OF l6 check_control_registers ntk_out(5)])
  also have "\<dots> = map_of st4 ?ntk"
    by (rule for_each_untouched [OF l5 check_control_registers ntk_out(4)])
  also have "\<dots> = map_of st3 ?ntk"
    by (rule for_each_untouched [OF l4 check_control_registers ntk_out(3)])
  also have "\<dots> = map_of st2 ?ntk"
    by (rule for_each_untouched [OF l3 check_control_registers ntk_out(2)])
  also have "\<dots> = map_of sb ?ntk"
    by (rule for_each_untouched [OF post pii_body_registers ntk_out(1)])
  also have "\<dots> = Some ?new"
    by (simp add: sb update_conv')
  finally show ?thesis by simp
qed

section \<open>Monotonicity of the rating\<close>

lemma contains_mono:
  "sublist n1 n2 \<Longrightarrow> contains n1 x \<Longrightarrow> contains n2 x"
  unfolding contains_iff_sublist by (rule sublist_order.order_trans)

lemma statement_present_mono:
  "sublist n1 n2 \<Longrightarrow> statement_present rt n1 s \<Longrightarrow> statement_present rt n2 s"
  by (auto simp: statement_present_def Let_def dest: contains_mono split: if_splits)

lemma cross_loop_mono:
  "sublist n1 n2 \<Longrightarrow> a1 \<subseteq> a2 \<Longrightarrow> cross_loop rt n1 rs a1 \<subseteq> cross_loop rt n2 rs a2"
proof (induction rs arbitrary: a1 a2)
  case Nil
  then show ?case by simp
next
  case (Cons r rs)
  let ?any1 = "list_ex (statement_present rt n1) (dget (if_any_statement_present r) [])"
  let ?any2 = "list_ex (statement_present rt n2) (dget (if_any_statement_present r) [])"
  from Cons.prems(1) have "?any1 \<Longrightarrow> ?any2"
    by (auto simp: list_ex_iff dest: statement_present_mono)
  with Cons.prems(2)
  have "(if ?any1 then a1 \<union> set (dget (then_mark_controls_met r) []) else a1)
        \<subseteq> (if ?any2 then a2 \<union> set (dget (then_mark_controls_met r) []) else a2)"
    by auto
  from Cons.IH [OF Cons.prems(1) this] show ?case by (simp add: Let_def)
qed

lemma statement_satisfies_control_mono:
  assumes "sublist (self_notes s1) (self_notes s2)"
    and "statement_satisfies_control rt s1 cid txt = Inr True"
  shows "statement_satisfies_control rt s2 cid txt = Inr True"
proof -
  let ?tok = "join (str '' '') (tl (re_split_W rt cid))"
  from assms(2) have "statement_present rt (self_notes s1) txt
      \<or> (cid \<noteq> [] \<and> contains (self_notes s1) cid)
      \<or> (length (re_split_W rt cid) > 1 \<and> ?tok \<noteq> [] \<and> contains (self_notes s1) ?tok)"
    by (auto simp: statement_satisfies_control_def Let_def split: if_splits option.splits)
  with assms(1) have "statement_present rt (self_notes s2) txt
      \<or> (cid \<noteq> [] \<and> contains (self_notes s2) cid)
      \<or> (length (re_split_W rt cid) > 1 \<and> ?tok \<noteq> [] \<and> contains (self_notes s2) ?tok)"
    by (auto dest: statement_present_mono contains_mono)
  then show ?thesis
    by (auto simp: statement_satisfies_control_def Let_def)
qed

lemma update_rel:
  assumes "list_all2 status_le u1 u2" and "status_le (k, v1) (k, v2)"
  shows "list_all2 status_le (AList.update k v1 u1) (AList.update k v2 u2)"
  using assms by (induction rule: list_all2_induct) (auto simp: status_le_def)

lemma register_rel:
  assumes "list_all2 status_le u1 u2" and "b1 \<longrightarrow> b2"
  shows "list_all2 status_le (register_control u1 k r1 b1 t g) (register_control u2 k r2 b2 t g)"
  unfolding register_control_def using assms
  by (intro update_rel) (auto simp: status_le_def)

lemma map_of_rel:
  assumes "list_all2 status_le u1 u2" and "map_of u1 k = Some v"
  shows "\<exists>w. map_of u2 k = Some w \<and> (satisfied v \<longrightarrow> satisfied w)"
  using assms by (induction rule: list_all2_induct) (auto simp: status_le_def split: if_splits)

lemma check_control_rel:
  assumes sub: "sublist (self_notes s1) (self_notes s2)" and cr: "c1 \<subseteq> c2"
    and rel: "list_all2 status_le u1 u2"
    and run1: "check_control rt s1 c1 u1 c r1 = Inr v1"
    and run2: "check_control rt s2 c2 u2 c r2 = Inr v2"
  shows "list_all2 status_le v1 v2"
proof -
  from run1 obtain b1 where b1: "(if c_id c \<in> c1 then Inr True
        else statement_satisfies_control rt s1 (c_id c) (dget (c_text c) [])) = Inr b1"
    and v1: "v1 = register_control u1 (c_id c) r1 b1 (dget (c_text c) []) (dget (c_tags c) [])"
    by (auto simp: check_control_def Let_def ebind_Inr_iff)
  from run2 obtain b2 where b2: "(if c_id c \<in> c2 then Inr True
        else statement_satisfies_control rt s2 (c_id c) (dget (c_text c) [])) = Inr b2"
    and v2: "v2 = register_control u2 (c_id c) r2 b2 (dget (c_text c) []) (dget (c_tags c) [])"
    by (auto simp: check_control_def Let_def ebind_Inr_iff)
  have "b1 \<longrightarrow> b2"
  proof
    assume b1
    show b2
    proof (cases "c_id c \<in> c2")
      case True
      with b2 show ?thesis by simp
    next
      case False
      with cr have "c_id c \<notin> c1" by blast
      with b1 \<open>b1\<close> have "statement_satisfies_control rt s1 (c_id c) (dget (c_text c) []) = Inr True"
        by simp
      from statement_satisfies_control_mono [OF sub this] False b2 show ?thesis by simp
    qed
  qed
  with rel show ?thesis unfolding v1 v2 by (rule register_rel)
qed

lemma lac_body_rel:
  assumes "sublist (self_notes s1) (self_notes s2)" and "c1 \<subseteq> c2"
    and "list_all2 status_le u1 u2"
    and "lac_body rt s1 conds cx c1 u1 c = Inr v1"
    and "lac_body rt s2 conds cx c2 u2 c = Inr v2"
  shows "list_all2 status_le v1 v2"
  using assms unfolding lac_body_def Let_def by (rule check_control_rel)

lemma pii_body_rel:
  assumes sub: "sublist (self_notes s1) (self_notes s2)" and cr: "c1 \<subseteq> c2"
    and rel: "list_all2 status_le u1 u2"
    and run1: "pii_body rt s1 conds cx c1 u1 c = Inr v1"
    and run2: "pii_body rt s2 conds cx c2 u2 c = Inr v2"
  shows "list_all2 status_le v1 v2"
proof -
  let ?netc = "dget (cond_network_information_security conds) empty_net_conditions"
  let ?rq = "\<not> (truthy (enforce_pii_controls_if_company_handles_pii ?netc) \<and> \<not> handles_pii cx)"
  let ?guard = "c_id c = str ''net_pii_need_to_know''
      \<and> truthy (do_not_enforce_need_to_know_if_least_privilege_statement_present ?netc)"
  let ?lp = "str ''lac_least_privilege''"
  let ?forced = "\<lambda>u. register_control u (c_id c) False True (dget (c_text c) []) (dget (c_tags c) [])"
  have o1: "(status_satisfied u1 ?lp \<and> ?guard \<and> v1 = ?forced u1)
      \<or> check_control rt s1 c1 u1 c ?rq = Inr v1"
    using run1 unfolding pii_body_def Let_def status_satisfied_def
    by (auto split: if_splits option.splits)
  have o2: "(status_satisfied u2 ?lp \<and> ?guard \<and> v2 = ?forced u2)
      \<or> (\<not> (status_satisfied u2 ?lp \<and> ?guard) \<and> check_control rt s2 c2 u2 c ?rq = Inr v2)"
    using run2 unfolding pii_body_def Let_def status_satisfied_def
    by (auto split: if_splits option.splits)
  have lp: "status_satisfied u1 ?lp \<Longrightarrow> status_satisfied u2 ?lp"
    using map_of_rel [OF rel] by (fastforce simp: status_satisfied_def split: option.splits)
  from o2 show ?thesis
  proof
    assume f2: "status_satisfied u2 ?lp \<and> ?guard \<and> v2 = ?forced u2"
    from o1 obtain r1 b1 where "v1 = register_control u1 (c_id c) r1 b1 (dget (c_text c) []) (dget (c_tags c) [])"
      by (auto simp: check_control_def Let_def ebind_Inr_iff)
    with f2 rel show ?thesis by (auto intro: register_rel)
  next
    assume n2: "\<not> (status_satisfied u2 ?lp \<and> ?guard) \<and> check_control rt s2 c2 u2 c ?rq = Inr v2"
    with o1 lp have "check_control rt s1 c1 u1 c ?rq = Inr v1" by blast
    from check_control_rel [OF sub cr rel this] n2 show ?thesis by blast
  qed
qed

lemma for_each_rel:
  assumes "for_each b1 xs s1 = Inr t1" and "for_each b2 xs s2 = Inr t2" and "Rel s1 s2"
    and "\<And>x u1 u2 v1 v2. Rel u1 u2 \<Longrightarrow> b1 u1 x = Inr v1 \<Longrightarrow> b2 u2 x = Inr v2 \<Longrightarrow> Rel v1 v2"
  shows "Rel t1 t2"
  using assms(1-3)
proof (induction xs arbitrary: s1 s2)
  case Nil
  then show ?case by simp
next
  case (Cons x xs)
  from Cons.prems(1) obtain v1 where v1: "b1 s1 x = Inr v1" and r1: "for_each b1 xs v1 = Inr t1"
    by (auto simp: ebind_Inr_iff)
  from Cons.prems(2) obtain v2 where v2: "b2 s2 x = Inr v2" and r2: "for_each b2 xs v2 = Inr t2"
    by (auto simp: ebind_Inr_iff)
  from assms(4) [OF Cons.prems(3) v1 v2] have "Rel v1 v2" .
  from Cons.IH [OF r1 r2 this] show ?case .
qed

lemma evaluate_controls_rel:
  assumes sub: "sublist (self_notes s1) (self_notes s2)" and cr: "c1 \<subseteq> c2"
    and rules: "self_rules s1 = self_rules s2"
    and run1: "evaluate_controls rt s1 cx c1 = Inr t1"
    and run2: "evaluate_controls rt s2 cx c2 = Inr t2"
  shows "list_all2 status_le t1 t2"
proof -
  let ?conds = "dget (conditions (self_rules s2)) empty_conditions"
  let ?cat = "dget (catalog (self_rules s2)) empty_catalog"
  let ?net = "dget (cat_network_information_security ?cat) empty_net_catalog"
  from run1 obtain a1 a2 a3 a4 a5 where
    a: "for_each (lac_body rt s1 ?conds cx c1) (dget (cat_logical_access_controls ?cat) []) [] = Inr a1"
      "for_each (pii_body rt s1 ?conds cx c1) (dget (pii_controls ?net) []) a1 = Inr a2"
      "for_each (\<lambda>st c. check_control rt s1 c1 st c True) (dget (controls ?net) []) a2 = Inr a3"
      "for_each (\<lambda>st c. check_control rt s1 c1 st c (software_provider cx))
         (dget (cat_change_mgmt_sdlc ?cat) []) a3 = Inr a4"
      "for_each (\<lambda>st c. check_control rt s1 c1 st c (remote_work_allowed cx))
         (dget (cat_remote_workforce ?cat) []) a4 = Inr a5"
      "for_each (\<lambda>st c. check_control rt s1 c1 st c True)
         (dget (cat_business_continuity ?cat) []) a5 = Inr t1"
    unfolding evaluate_controls_def Let_def ebind_Inr_iff rules by blast
  from run2 obtain b1 b2 b3 b4 b5 where
    b: "for_each (lac_body rt s2 ?conds cx c2) (dget (cat_logical_access_controls ?cat) []) [] = Inr b1"
      "for_each (pii_body rt s2 ?conds cx c2) (dget (pii_controls ?net) []) b1 = Inr b2"
      "for_each (\<lambda>st c. check_control rt s2 c2 st c True) (dget (controls ?net) []) b2 = Inr b3"
      "for_each (\<lambda>st c. check_control rt s2 c2 st c (software_provider cx))
         (dget (cat_change_mgmt_sdlc ?cat) []) b3 = Inr b4"
      "for_each (\<lambda>st c. check_control rt s2 c2 st c (remote_work_allowed cx))
         (dget (cat_remote_workforce ?cat) []) b4 = Inr b5"
      "for_each (\<lambda>st c. check_control rt s2 c2 st c True)
         (dget (cat_business_continuity ?cat) []) b5 = Inr t2"
    unfolding evaluate_controls_def Let_def ebind_Inr_iff by blast
  have r0: "list_all2 status_le [] []" by simp
  have r1: "list_all2 status_le a1 b1"
    by (rule for_each_rel [where Rel = "list_all2 status_le", OF a(1) b(1) r0])
       (rule lac_body_rel [OF sub cr])
  have r2: "list_all2 status_le a2 b2"
    by (rule for_each_rel [where Rel = "list_all2 status_le", OF a(2) b(2) r1])
       (rule pii_body_rel [OF sub cr])
  have r3: "list_all2 status_le a3 b3"
    by (rule for_each_rel [where Rel = "list_all2 status_le", OF a(3) b(3) r2])
       (rule check_control_rel [OF sub cr])
  have r4: "list_all2 status_le a4 b4"
    by (rule for_each_rel [where Rel = "list_all2 status_le", OF a(4) b(4) r3])
       (rule check_control_rel [OF sub cr])
  have r5: "list_all2 status_le a5 b5"
    by (rule for_each_rel [where Rel = "list_all2 status_le", OF a(5) b(5) r4])
       (rule check_control_rel [OF sub cr])
  show ?thesis
    by (rule for_each_rel [where Rel = "list_all2 status_le", OF a(6) b(6) r5])
       (rule check_control_rel [OF sub cr])
qed

lemma rel_with_required:
  assumes "list_all2 status_le t1 t2" and "map (required \<circ> snd) t1 = map (required \<circ> snd) t2"
  shows "list_all2 entry_le t1 t2"
proof -
  from assms(1) have len: "length t1 = length t2" by (rule list_all2_lengthD)
  have "entry_le (t1 ! i) (t2 ! i)" if i: "i < length t1" for i
  proof -
    from assms(1) i have le: "status_le (t1 ! i) (t2 ! i)" by (simp add: list_all2_conv_all_nth)
    from i len have "map (required \<circ> snd) t1 ! i = (required \<circ> snd) (t1 ! i)"
      and "map (required \<circ> snd) t2 ! i = (required \<circ> snd) (t2 ! i)"
      by simp_all
    with assms(2) have "required (snd (t1 ! i)) = required (snd (t2 ! i))" by simp
    with le show ?thesis by (simp add: entry_le_def ctrl_le_def status_le_def)
  qed
  with len show ?thesis by (simp add: list_all2_conv_all_nth)
qed

lemma filter_rel:
  assumes "list_all2 Q xs ys" and "\<And>x y. Q x y \<Longrightarrow> P x = P' y"
  shows "list_all2 Q (filter P xs) (filter P' ys)"
  using assms by (induction rule: list_all2_induct) auto

lemma values_rel: "list_all2 entry_le t1 t2 \<Longrightarrow> list_all2 ctrl_le (map snd t1) (map snd t2)"
  by (auto simp: list_all2_map1 list_all2_map2 entry_le_def elim: list_all2_mono)

lemma category_controls_rel:
  assumes "list_all2 entry_le t1 t2"
  shows "list_all2 ctrl_le (category_controls p t1) (category_controls p t2)"
proof -
  from assms have "list_all2 entry_le (filter (\<lambda>(ctrl_id, ctrl). prefix p ctrl_id) t1)
      (filter (\<lambda>(ctrl_id, ctrl). prefix p ctrl_id) t2)"
    by (rule filter_rel) (auto simp: entry_le_def)
  then show ?thesis unfolding category_controls_def by (rule values_rel)
qed

lemma required_rel:
  "list_all2 ctrl_le xs ys \<Longrightarrow> list_all2 ctrl_le (filter required xs) (filter required ys)"
  by (rule filter_rel) (auto simp: ctrl_le_def)

lemma all_satisfied_mono:
  "list_all2 ctrl_le xs ys \<Longrightarrow> list_all satisfied xs \<Longrightarrow> list_all satisfied ys"
  by (induction rule: list_all2_induct) (auto simp: ctrl_le_def)

lemma count_satisfied_mono:
  "list_all2 ctrl_le xs ys \<Longrightarrow> count_satisfied xs \<le> count_satisfied ys"
  unfolding count_satisfied_def
  by (induction rule: list_all2_induct) (auto simp: ctrl_le_def)

lemma tag_check_mono:
  assumes "list_all2 ctrl_le xs ys" and "tag_check tag xs"
  shows "tag_check tag ys"
proof -
  have "list_ex (\<lambda>ctrl. satisfied ctrl \<and> t \<in> set (tags ctrl)) xs
      \<Longrightarrow> list_ex (\<lambda>ctrl. satisfied ctrl \<and> t \<in> set (tags ctrl)) ys" for t
    using assms(1) by (induction rule: list_all2_induct) (auto simp: ctrl_le_def)
  with assms(2) show ?thesis
    by (auto simp: tag_check_def split: option.splits if_splits)
qed

lemma status_satisfied_mono:
  "list_all2 entry_le t1 t2 \<Longrightarrow> status_satisfied t1 k \<Longrightarrow> status_satisfied t2 k"
  unfolding status_satisfied_def
  by (induction rule: list_all2_induct) (auto simp: entry_le_def ctrl_le_def split: if_splits)

lemma length_filter_mono:
  "(\<And>x. P x \<Longrightarrow> P' x) \<Longrightarrow> length (filter P xs) \<le> length (filter P' xs)"
  by (induction xs) auto

lemma meets_logical_access_controls_mono:
  assumes "list_all2 entry_le t1 t2" and "meets_logical_access_controls req t1"
  shows "meets_logical_access_controls req t2"
proof -
  let ?r1 = "filter required (category_controls (str ''lac_'') t1)"
  let ?r2 = "filter required (category_controls (str ''lac_'') t2)"
  have rel: "list_all2 ctrl_le ?r1 ?r2"
    using assms(1) by (intro required_rel category_controls_rel)
  note all_satisfied_mono [OF rel] count_satisfied_mono [OF rel] tag_check_mono [OF rel]
  with assms(2) show ?thesis
    unfolding meets_logical_access_controls_def Let_def
    by (auto split: if_splits)
qed

lemma meets_network_controls_mono:
  assumes "list_all2 entry_le t1 t2" and "meets_network_controls req cx t1"
  shows "meets_network_controls req cx t2"
proof -
  let ?p1 = "filter required (category_controls (str ''net_pii_'') t1)"
  let ?p2 = "filter required (category_controls (str ''net_pii_'') t2)"
  let ?isnet = "\<lambda>ctrl. prefix (str ''net_'') (control_id ctrl)
                                 \<and> \<not> prefix (str ''net_pii_'') (control_id ctrl)"
  let ?r1 = "filter required (filter ?isnet (map snd t1))"
  let ?r2 = "filter required (filter ?isnet (map snd t2))"
  have prel: "list_all2 ctrl_le ?p1 ?p2"
    using assms(1) by (intro required_rel category_controls_rel)
  have "list_all2 ctrl_le (filter ?isnet (map snd t1)) (filter ?isnet (map snd t2))"
    using values_rel [OF assms(1)] by (rule filter_rel) (auto simp: ctrl_le_def)
  then have rel: "list_all2 ctrl_le ?r1 ?r2" by (rule required_rel)
  from prel have nil: "(?p1 = []) = (?p2 = [])"
    by (auto dest: list_all2_lengthD)
  note all_satisfied_mono [OF prel] all_satisfied_mono [OF rel] count_satisfied_mono [OF rel]
    tag_check_mono [OF rel]
  with assms(2) nil show ?thesis
    unfolding meets_network_controls_def Let_def
    by (auto split: if_splits)
qed

lemma meets_change_mgmt_mono:
  assumes "list_all2 entry_le t1 t2" and "meets_change_mgmt req cx t1"
  shows "meets_change_mgmt req cx t2"
proof -
  let ?r1 = "filter required (category_controls (str ''chg_'') t1)"
  let ?r2 = "filter required (category_controls (str ''chg_'') t2)"
  have rel: "list_all2 ctrl_le ?r1 ?r2"
    using assms(1) by (intro required_rel category_controls_rel)
  have cnt: "int (length (filter (status_satisfied t1) ids))
      \<le> int (length (filter (status_satisfied t2) ids))" for ids
    using length_filter_mono [of "status_satisfied t1" "status_satisfied t2" ids]
      status_satisfied_mono [OF assms(1)] by simp
  note all_satisfied_mono [OF rel] count_satisfied_mono [OF rel]
    status_satisfied_mono [OF assms(1), of "str ''chg_change_mgmt_process''"]
    cnt [of "dget (min_count_from req) []"]
  with assms(2) show ?thesis
    unfolding meets_change_mgmt_def Let_def
    by (auto split: if_splits)
qed

lemma meets_remote_workforce_mono:
  assumes "list_all2 entry_le t1 t2" and "meets_remote_workforce req cx t1"
  shows "meets_remote_workforce req cx t2"
proof -
  let ?r1 = "filter required (category_controls (str ''rw_'') t1)"
  let ?r2 = "filter required (category_controls (str ''rw_'') t2)"
  have rel: "list_all2 ctrl_le ?r1 ?r2"
    using assms(1) by (intro required_rel category_controls_rel)
  note all_satisfied_mono [OF rel] count_satisfied_mono [OF rel]
  with assms(2) show ?thesis
    unfolding meets_remote_workforce_def Let_def
    by (auto split: if_splits)
qed

lemma meets_info_tech_overview_mono:
  "o1 \<subseteq> o2 \<Longrightarrow> meets_info_tech_overview req o1 \<Longrightarrow> meets_info_tech_overview req o2"
  by (auto simp: meets_info_tech_overview_def list_all_iff)

lemma meets_incident_response_mono:
  assumes "e1 \<subseteq> e2" and "finite e2" and "meets_incident_response req e1"
  shows "meets_incident_response req e2"
proof -
  from assms(1,2) have "card e1 \<le> card e2" by (simp add: card_mono)
  with assms(3) show ?thesis
    by (auto simp: meets_incident_response_def split: option.splits)
qed

lemma meets_business_continuity_mono:
  "(b1 \<longrightarrow> b2) \<Longrightarrow> meets_business_continuity req b1 \<Longrightarrow> meets_business_continuity req b2"
  by (auto simp: meets_business_continuity_def split: if_splits)

lemma evaluate_business_continuity_mono:
  "list_all2 entry_le t1 t2 \<Longrightarrow> evaluate_business_continuity t1 \<Longrightarrow> evaluate_business_continuity t2"
  using status_satisfied_mono [of t1 t2 "str ''bcp_plan''"]
  by (simp add: evaluate_business_continuity_def status_satisfied_def)

lemma meets_rating_mono:
  assumes rel: "list_all2 entry_le t1 t2" and "e1 \<subseteq> e2" and "finite e2" and "o1 \<subseteq> o2"
    and "b1 \<longrightarrow> b2" and m: "meets_rating req cx t1 e1 o1 b1"
  shows "meets_rating req cx t2 e2 o2 b2"
proof -
  from m have
    "meets_info_tech_overview (dget (req_info_tech_overview req) empty_ito_req) o1"
    "meets_logical_access_controls (dget (req_logical_access_controls req) empty_lac_req) t1"
    "meets_network_controls (dget (req_network_information_security req) empty_net_req) cx t1"
    "meets_change_mgmt (dget (req_change_mgmt_sdlc req) empty_chg_req) cx t1"
    "meets_remote_workforce (dget (req_remote_workforce req) empty_rw_req) cx t1"
    "meets_incident_response (dget (req_incident_response req) empty_ir_req) e1"
    "meets_business_continuity (dget (req_business_continuity req) empty_bcp_req) b1"
    unfolding meets_rating_def by (auto split: if_splits)
  then have
    "meets_info_tech_overview (dget (req_info_tech_overview req) empty_ito_req) o2"
    "meets_logical_access_controls (dget (req_logical_access_controls req) empty_lac_req) t2"
    "meets_network_controls (dget (req_network_information_security req) empty_net_req) cx t2"
    "meets_change_mgmt (dget (req_change_mgmt_sdlc req) empty_chg_req) cx t2"
    "meets_remote_workforce (dget (req_remote_workforce req) empty_rw_req) cx t2"
    "meets_incident_response (dget (req_incident_response req) empty_ir_req) e2"
    "meets_business_continuity (dget (req_business_continuity req) empty_bcp_req) b2"
    using assms(1-5)
    by (blast intro: meets_info_tech_overview_mono meets_logical_access_controls_mono
        meets_network_controls_mono meets_change_mgmt_mono meets_remote_workforce_mono
        meets_incident_response_mono meets_business_continuity_mono)+
  then show ?thesis unfolding meets_rating_def by simp
qed

lemma rating_loop_mono:
  assumes mono: "\<And>req. meets_rating req cx t1 e1 o1 b1 \<Longrightarrow> meets_rating req cx t2 e2 o2 b2"
    and rules: "self_rules s1 = self_rules s2"
    and ord: "sorted_wrt (\<lambda>a b. favorability b < favorability a) ts"
    and l1: "rating_loop s1 cx t1 e1 o1 b1 ts = Inr (r1, d1)"
    and l2: "rating_loop s2 cx t2 e2 o2 b2 ts = Inr (r2, d2)"
  shows "favorability r1 \<le> favorability r2"
  using ord l1 l2
proof (induction ts)
  case Nil
  then show ?case by simp
next
  case (Cons t ts)
  from Cons.prems(2) obtain rs req where rs: "ratings (self_rules s2) = Some rs"
    and req: "tier_lookup rs t = Some req"
    by (auto simp: rules split: option.splits)
  show ?case
  proof (cases "meets_rating req cx t1 e1 o1 b1")
    case True
    with mono have "meets_rating req cx t2 e2 o2 b2" .
    with True Cons.prems(2,3) rs req show ?thesis by (simp add: rules)
  next
    case False
    with Cons.prems(2) rs req have rest1: "rating_loop s1 cx t1 e1 o1 b1 ts = Inr (r1, d1)"
      by (simp add: rules)
    show ?thesis
    proof (cases "meets_rating req cx t2 e2 o2 b2")
      case True
      with Cons.prems(3) rs req have "r2 = t" by simp
      moreover from rating_loop_result [OF rest1]
      have "r1 \<in> set ts \<or> r1 = Very_unfavorable" by blast
      ultimately show ?thesis using Cons.prems(1) by auto
    next
      case False
      with Cons.prems(3) rs req have "rating_loop s2 cx t2 e2 o2 b2 ts = Inr (r2, d2)"
        by simp
      from Cons.IH [OF _ rest1 this] Cons.prems(1) show ?thesis by simp
    qed
  qed
qed

text \<open>
  Claim C2, amended. For one rule document, let the normalized notes be a substring of
  the normalized extended notes, the extended notes not be degenerate, and both
  evaluations return. If the two results carry the same context flags and every control
  has the same required flag in both control maps, then the rating of the extended notes
  is equally or more favourable.
\<close>

theorem rating_monotone:
  assumes ext: "sublist (normalize_str rt nts) (normalize_str rt nts')"
    and nd: "\<not> degenerate rt nts'"
    and r1: "fst (evaluate rt self nts) = Inr res"
    and r2: "fst (evaluate rt self nts') = Inr res'"
    and same_cx: "handles_pii (r_context res) = handles_pii (r_context res')"
      "remote_work_allowed (r_context res) = remote_work_allowed (r_context res')"
      "software_provider (r_context res) = software_provider (r_context res')"
    and m1: "control_map rt self nts = Inr st" and m2: "control_map rt self nts' = Inr st'"
    and same_req: "map (required \<circ> snd) st = map (required \<circ> snd) st'"
  shows "favorability (r_rating res) \<le> favorability (r_rating res')"
proof (cases "degenerate rt nts")
  case True
  with r1 degenerate_rating have "r_rating res = No_information_provided \<or> r_rating res = N_a"
    by blast
  then show ?thesis by auto
next
  case False
  let ?s1 = "with_notes rt self nts" and ?s2 = "with_notes rt self nts'"
  from r1 False obtain cx1 c1 t1 e1 o1 g1 d1 where
    a: "build_context rt ?s1 = Inr cx1" "apply_cross_satisfaction rt ?s1 = Inr c1"
      "evaluate_controls rt ?s1 cx1 c1 = Inr t1" "control_map rt self nts = Inr t1"
      "collect_incident_response_elements rt ?s1 = Inr e1"
      "evaluate_info_tech_overview rt ?s1 = Inr o1"
      "determine_rating ?s1 cx1 t1 e1 o1 (evaluate_business_continuity t1) = Inr (g1, d1)"
      "res = \<lparr>r_rating = g1, r_details = d1,
            r_context = \<lparr>handles_pii = handles_pii cx1,
                         remote_work_allowed = remote_work_allowed cx1,
                         software_provider = software_provider cx1,
                         incident_elements = Some (sorted_list_of_set e1)\<rparr>\<rparr>"
    by (rule evaluate_stages)
  from r2 nd obtain cx2 c2 t2 e2 o2 g2 d2 where
    b: "build_context rt ?s2 = Inr cx2" "apply_cross_satisfaction rt ?s2 = Inr c2"
      "evaluate_controls rt ?s2 cx2 c2 = Inr t2" "control_map rt self nts' = Inr t2"
      "collect_incident_response_elements rt ?s2 = Inr e2"
      "evaluate_info_tech_overview rt ?s2 = Inr o2"
      "determine_rating ?s2 cx2 t2 e2 o2 (evaluate_business_continuity t2) = Inr (g2, d2)"
      "res' = \<lparr>r_rating = g2, r_details = d2,
            r_context = \<lparr>handles_pii = handles_pii cx2,
                         remote_work_allowed = remote_work_allowed cx2,
                         software_provider = software_provider cx2,
                         incident_elements = Some (sorted_list_of_set e2)\<rparr>\<rparr>"
    by (rule evaluate_stages)
  have sub: "sublist (self_notes ?s1) (self_notes ?s2)"
    using ext by (simp add: with_notes_def)
  have rules: "self_rules ?s1 = self_rules ?s2" by (simp add: with_notes_def)
  from same_cx a(8) b(8) have cx: "cx1 = cx2" by simp
  from m1 a(4) have st: "st = t1" by simp
  from m2 b(4) have st': "st' = t2" by simp
  have cross: "c1 \<subseteq> c2"
    using a(2) b(2) cross_loop_mono [OF sub subset_refl]
    by (auto simp: apply_cross_satisfaction_def rules split: option.splits)
  have "list_all2 status_le t1 t2"
    using sub cross rules a(3) b(3) [folded cx] by (rule evaluate_controls_rel)
  from this same_req [unfolded st st'] have rel: "list_all2 entry_le t1 t2"
    by (rule rel_with_required)
  have el: "e1 \<subseteq> e2" "finite e2"
    using a(5) b(5) statement_present_mono [OF sub]
    by (auto simp: collect_incident_response_elements_def rules split: option.splits)
  have ov: "o1 \<subseteq> o2"
    using a(6) b(6) statement_present_mono [OF sub]
    by (auto simp: evaluate_info_tech_overview_def rules split: option.splits)
  have bc: "evaluate_business_continuity t1 \<longrightarrow> evaluate_business_continuity t2"
    using evaluate_business_continuity_mono [OF rel] by blast
  have ord: "sorted_wrt (\<lambda>a b. favorability b < favorability a) ratings_order"
    by (simp add: ratings_order_def)
  have "favorability g1 \<le> favorability g2"
  proof (rule rating_loop_mono [OF _ rules ord])
    show "rating_loop ?s1 cx1 t1 e1 o1 (evaluate_business_continuity t1) ratings_order = Inr (g1, d1)"
      using a(7) by (simp add: determine_rating_def)
    show "rating_loop ?s2 cx1 t2 e2 o2 (evaluate_business_continuity t2) ratings_order = Inr (g2, d2)"
      using b(7) by (simp add: determine_rating_def cx)
    show "meets_rating req cx1 t2 e2 o2 (evaluate_business_continuity t2)"
      if "meets_rating req cx1 t1 e1 o1 (evaluate_business_continuity t1)" for req
      using rel el ov bc that by (rule meets_rating_mono)
  qed
  with a(8) b(8) show ?thesis by simp
qed

section \<open>The example document, evaluated\<close>

lemma eval_nothing:
  "fst (evaluate ascii_rt example_evaluator (str ''Nothing to report.''))
     = Inr \<lparr>r_rating = Very_unfavorable,
            r_details = Fallback_details fallback_reason
              (map str [''bcp_plan'', ''lac_least_privilege'',
                        ''lac_passwords_encrypted_in_transit'', ''net_firewall'']),
            r_context = \<lparr>handles_pii = False, remote_work_allowed = False,
                         software_provider = False, incident_elements = Some []\<rparr>\<rparr>"
  by (simp add: text_eval doc_eval run_eval)

theorem fallback_missing_controls_witness:
  "\<exists>status. control_map ascii_rt example_evaluator (str ''Nothing to report.'') = Inr status
     \<and> set (map str [''bcp_plan'', ''lac_least_privilege'',
                      ''lac_passwords_encrypted_in_transit'', ''net_firewall''])
         = {cid. \<exists>cs. map_of status cid = Some cs \<and> required cs \<and> \<not> satisfied cs}"
  using fallback_missing_controls [OF eval_nothing] by auto

lemma eval_mfa_passwords:
  "fst (evaluate ascii_rt example_evaluator
          (str ''MFA is required. Passwords are encrypted in transit.''))
     = Inr \<lparr>r_rating = Very_favorable,
            r_details = Rating_details Very_favorable
              [str ''lac_passwords_encrypted_in_transit'']
              (map str [''bcp_plan'', ''lac_least_privilege'', ''net_firewall''])
              [] [],
            r_context = \<lparr>handles_pii = False, remote_work_allowed = False,
                         software_provider = False, incident_elements = Some []\<rparr>\<rparr>"
  by (simp add: text_eval doc_eval run_eval)

theorem tier_details_lists_witness:
  "\<exists>status. control_map ascii_rt example_evaluator
               (str ''MFA is required. Passwords are encrypted in transit.'') = Inr status
     \<and> set [str ''lac_passwords_encrypted_in_transit'']
         = {cid. \<exists>cs. map_of status cid = Some cs \<and> satisfied cs \<and> required cs}
     \<and> set (map str [''bcp_plan'', ''lac_least_privilege'', ''net_firewall''])
         = {cid. \<exists>cs. map_of status cid = Some cs \<and> required cs \<and> \<not> satisfied cs}"
  using tier_details_lists [OF eval_mfa_passwords] by (auto simp: ratings_order_def)

theorem missing_section_aborts_witness:
  "fst (evaluate ascii_rt \<lparr>self_rules = no_rules, self_notes = []\<rparr> (str ''MFA is required.''))
     = Inl (KeyError ''conditions'')
   \<and> fst (evaluate ascii_rt \<lparr>self_rules = example_rules\<lparr>catalog := None\<rparr>, self_notes = []\<rparr>
            (str ''MFA is required.''))
     = Inl (KeyError ''catalog'')"
  using missing_section_aborts [of ascii_rt "str ''MFA is required.''"
      "\<lparr>self_rules = no_rules, self_notes = []\<rparr>"]
    missing_section_aborts [of ascii_rt "str ''MFA is required.''"
      "\<lparr>self_rules = example_rules\<lparr>catalog := None\<rparr>, self_notes = []\<rparr>"]
  by (simp add: degenerate_def text_eval no_rules_def example_rules_def)

lemma cross_sso:
  "apply_cross_satisfaction ascii_rt (with_notes ascii_rt example_evaluator (str ''SSO is enforced.''))
     = Inr {str ''lac_mfa_critical_or_pii''}"
  by (simp add: text_eval doc_eval apply_cross_satisfaction_def statement_present_def with_notes_def)

lemma controls_sso:
  "\<exists>status. evaluate_controls ascii_rt
      (with_notes ascii_rt example_evaluator (str ''SSO is enforced.''))
      \<lparr>handles_pii = False, remote_work_allowed = False, software_provider = False\<rparr>
      {str ''lac_mfa_critical_or_pii''} = Inr status"
  by (simp add: text_eval doc_eval run_eval)

theorem cross_satisfaction_precedence_witness:
  "\<exists>status cs. evaluate_controls ascii_rt
      (with_notes ascii_rt example_evaluator (str ''SSO is enforced.''))
      \<lparr>handles_pii = False, remote_work_allowed = False, software_provider = False\<rparr>
      {str ''lac_mfa_critical_or_pii''} = Inr status
    \<and> map_of status (str ''lac_mfa_critical_or_pii'') = Some cs \<and> satisfied cs"
proof -
  let ?self = "with_notes ascii_rt example_evaluator (str ''SSO is enforced.'')"
  let ?cx = "\<lparr>handles_pii = False, remote_work_allowed = False, software_provider = False\<rparr>"
  let ?c = "control ''lac_mfa_critical_or_pii'' ''mfa is required'' [''mfa'']"
  from controls_sso obtain status where
    run: "evaluate_controls ascii_rt ?self ?cx {str ''lac_mfa_critical_or_pii''} = Inr status"
    by blast
  have mem: "?c \<in> set (catalog_controls (self_rules ?self))"
    by (simp add: catalog_controls_def with_notes_def doc_eval)
  have cid: "c_id ?c = str ''lac_mfa_critical_or_pii''"
    by (simp add: control_def)
  from cross_satisfaction_precedence [of ?c "{str ''lac_mfa_critical_or_pii''}" ascii_rt ?self
      "[]" True ?cx status] run mem cid
  have "\<exists>cs. map_of status (str ''lac_mfa_critical_or_pii'') = Some cs \<and> satisfied cs"
    by simp
  with run show ?thesis by blast
qed

lemma eval_pii:
  "fst (evaluate ascii_rt example_evaluator
          (str ''Customer PII is stored. MFA is required. Access to PII is need to know.''))
     = Inr \<lparr>r_rating = Very_favorable,
            r_details = Rating_details Very_favorable
              (map str [''lac_mfa_critical_or_pii'', ''net_pii_need_to_know''])
              (map str [''bcp_plan'', ''lac_least_privilege'',
                        ''lac_passwords_encrypted_in_transit'', ''net_firewall''])
              [] [],
            r_context = \<lparr>handles_pii = True, remote_work_allowed = False,
                         software_provider = False, incident_elements = Some []\<rparr>\<rparr>"
  by (simp add: text_eval doc_eval run_eval)

lemma eval_pii_least_privilege:
  "fst (evaluate ascii_rt example_evaluator
          (str ''Customer PII is stored. MFA is required. Access to PII is need to know.''
           @ str '' Least privilege is enforced.''))
     = Inr \<lparr>r_rating = Unfavorable,
            r_details = Rating_details Unfavorable
              (map str [''lac_least_privilege'', ''lac_mfa_critical_or_pii''])
              (map str [''bcp_plan'', ''lac_passwords_encrypted_in_transit'', ''net_firewall''])
              [] [],
            r_context = \<lparr>handles_pii = True, remote_work_allowed = False,
                         software_provider = False, incident_elements = Some []\<rparr>\<rparr>"
  by (simp add: text_eval doc_eval run_eval)

text \<open>
  Claim C2 as stated fails. The notes below earn \<^verbatim>\<open>very_favorable\<close>; appending the text
  of the control \<^verbatim>\<open>lac_least_privilege\<close> makes the need-to-know override register the only
  PII control as not required, the tiers that require PII controls then find no required
  PII control, and the rating drops to \<^verbatim>\<open>unfavorable\<close>.
\<close>

theorem rating_not_monotone:
  "map_sum id r_rating
     (fst (evaluate ascii_rt example_evaluator
             (str ''Customer PII is stored. MFA is required. Access to PII is need to know.'')))
     = Inr Very_favorable
   \<and> map_sum id r_rating
     (fst (evaluate ascii_rt example_evaluator
             (str ''Customer PII is stored. MFA is required. Access to PII is need to know.''
              @ str '' Least privilege is enforced.'')))
     = Inr Unfavorable
   \<and> statement_satisfies_control ascii_rt
        (with_notes ascii_rt example_evaluator (str '' Least privilege is enforced.''))
        (str ''lac_least_privilege'') (str ''least privilege is enforced'') = Inr True
   \<and> favorability Unfavorable < favorability Very_favorable"
  by (simp add: eval_pii eval_pii_least_privilege)
     (simp add: text_eval statement_satisfies_control_def statement_present_def with_notes_def)

lemma eval_nothing_passwords:
  "fst (evaluate ascii_rt example_evaluator
          (str ''Nothing to report. Passwords are encrypted in transit.''))
     = Inr \<lparr>r_rating = Very_favorable,
            r_details = Rating_details Very_favorable
              [str ''lac_passwords_encrypted_in_transit'']
              (map str [''bcp_plan'', ''lac_least_privilege'', ''net_firewall''])
              [] [],
            r_context = \<lparr>handles_pii = False, remote_work_allowed = False,
                         software_provider = False, incident_elements = Some []\<rparr>\<rparr>"
  by (simp add: text_eval doc_eval run_eval)

lemma control_maps_nothing_passwords:
  "\<exists>st st'. control_map ascii_rt example_evaluator (str ''Nothing to report.'') = Inr st
     \<and> control_map ascii_rt example_evaluator
          (str ''Nothing to report. Passwords are encrypted in transit.'') = Inr st'
     \<and> map (required \<circ> snd) st = map (required \<circ> snd) st'"
  by (simp add: text_eval doc_eval run_eval control_map_def)

theorem rating_monotone_witness:
  "\<exists>res res'.
      fst (evaluate ascii_rt example_evaluator (str ''Nothing to report.'')) = Inr res
    \<and> fst (evaluate ascii_rt example_evaluator
              (str ''Nothing to report. Passwords are encrypted in transit.'')) = Inr res'
    \<and> r_rating res = Very_unfavorable \<and> r_rating res' = Very_favorable
    \<and> favorability (r_rating res) \<le> favorability (r_rating res')"
proof -
  let ?n = "str ''Nothing to report.''"
  let ?n' = "str ''Nothing to report. Passwords are encrypted in transit.''"
  have ext: "sublist (normalize_str ascii_rt ?n) (normalize_str ascii_rt ?n')"
    unfolding contains_iff_sublist [symmetric] by (simp add: text_eval)
  have nd: "\<not> degenerate ascii_rt ?n'"
    by (simp add: degenerate_def text_eval)
  from control_maps_nothing_passwords obtain st st' where
    m: "control_map ascii_rt example_evaluator ?n = Inr st"
      "control_map ascii_rt example_evaluator ?n' = Inr st'"
      "map (required \<circ> snd) st = map (required \<circ> snd) st'"
    by blast
  from rating_monotone [OF ext nd eval_nothing eval_nothing_passwords _ _ _ m]
  have "favorability (r_rating (projr (fst (evaluate ascii_rt example_evaluator ?n))))
      \<le> favorability (r_rating (projr (fst (evaluate ascii_rt example_evaluator ?n'))))"
    by (simp add: eval_nothing eval_nothing_passwords)
  then show ?thesis
    by (simp add: eval_nothing eval_nothing_passwords)
qed

lemma controls_pii_least_privilege:
  "\<exists>status. evaluate_controls ascii_rt
      (with_notes ascii_rt example_evaluator (str ''Customer PII is stored. Least privilege is enforced.''))
      \<lparr>handles_pii = True, remote_work_allowed = False, software_provider = False\<rparr> {}
      = Inr status
    \<and> status_satisfied status (str ''lac_least_privilege'')"
  by (simp add: text_eval doc_eval run_eval)

theorem need_to_know_override_witness:
  "\<exists>status cs. evaluate_controls ascii_rt
      (with_notes ascii_rt example_evaluator (str ''Customer PII is stored. Least privilege is enforced.''))
      \<lparr>handles_pii = True, remote_work_allowed = False, software_provider = False\<rparr> {}
      = Inr status
    \<and> map_of status (str ''net_pii_need_to_know'') = Some cs \<and> \<not> required cs \<and> satisfied cs"
proof -
  let ?self = "with_notes ascii_rt example_evaluator
      (str ''Customer PII is stored. Least privilege is enforced.'')"
  let ?cx = "\<lparr>handles_pii = True, remote_work_allowed = False, software_provider = False\<rparr>"
  from controls_pii_least_privilege obtain status where
    run: "evaluate_controls ascii_rt ?self ?cx {} = Inr status"
    and lp: "status_satisfied status (str ''lac_least_privilege'')"
    by blast
  have rules: "self_rules ?self = example_rules"
    by (simp add: with_notes_def example_evaluator_def)
  have dist: "distinct (map c_id (catalog_controls (self_rules ?self)))"
    unfolding rules by (simp add: catalog_controls_def doc_eval str_def)
  have flag: "need_to_know_override_enabled (self_rules ?self)"
    unfolding rules by (simp add: need_to_know_override_enabled_def doc_eval)
  have lp_in: "str ''lac_least_privilege'' \<in> c_id ` set (lac_catalog (self_rules ?self))"
    unfolding rules by (simp add: lac_catalog_def doc_eval)
  have ntk_in: "str ''net_pii_need_to_know'' \<in> c_id ` set (pii_catalog (self_rules ?self))"
    unfolding rules by (simp add: pii_catalog_def doc_eval)
  from need_to_know_override [OF run dist flag lp_in ntk_in lp] run
  show ?thesis by blast
qed

end
